theory Spec2Isabelle
  imports Main
begin

section \<open>The resource registry of k8sinterface/k8sdiscovery.go\<close>

text \<open>
  A shallow embedding of \<^verbatim>\<open>src/k8sinterface/k8sdiscovery.go\<close>. Go strings are byte
  sequences and are modelled as \<^typ>\<open>string\<close>, a list of bytes. The three package-level variables
  \<^verbatim>\<open>ResourceGroupMapping\<close>, \<^verbatim>\<open>ResourceClusterScope\<close> and \<^verbatim>\<open>ResourceNamesapcedScope\<close>
  form one record that every function reading them takes as an argument and that
  \<^verbatim>\<open>setMapResources\<close>, the only writer, returns updated.
\<close>

subsection \<open>Library functions of packages strings, unicode and utf8\<close>

text \<open>
  \<^verbatim>\<open>strings.ToLower\<close> is modelled with its two paths. A string of bytes below 128 is
  lower-cased byte by byte (A to Z, bytes 65 to 90, move to a to z). Any other string goes
  through \<^verbatim>\<open>strings.Map(unicode.ToLower, s)\<close>: the string is decoded rune by rune as UTF-8,
  a byte that starts no valid encoding counts as the rune U+FFFD of width one, each rune is
  mapped, and the results are encoded again.

  The case table of package unicode (\<^verbatim>\<open>unicode.CaseRanges\<close>, read by
  \<^verbatim>\<open>unicode.To(unicode.LowerCase, r)\<close>) is not part of this repository. It is the argument
  \<open>caseTable\<close> of \<open>unicode_ToLower\<close> and of every function that lower-cases; it is consulted
  for runes above 127 only, as in \<^verbatim>\<open>unicode.ToLower\<close>.
\<close>

definition toLowerChar :: "char \<Rightarrow> char" where
  "toLowerChar c =
     (let n = (of_char c :: nat) in if 65 \<le> n \<and> n \<le> 90 then char_of (n + 32) else c)"

text \<open>\<^verbatim>\<open>utf8.RuneError\<close> and \<^verbatim>\<open>utf8.ValidRune\<close>; a rune is an \<^typ>\<open>int\<close>.\<close>

definition RuneError :: int where
  "RuneError = 0xFFFD"

definition ValidRune :: "int \<Rightarrow> bool" where
  "ValidRune r = ((0 \<le> r \<and> r < 0xD800) \<or> (0xDFFF < r \<and> r \<le> 0x10FFFF))"

text \<open>
  \<^verbatim>\<open>utf8.DecodeRuneInString\<close>: the first rune of the string and its width in bytes. The
  lead byte gives the size and the range accepted for the second byte (which shuts out
  overlong forms, the surrogates and values above U+10FFFF); every failure is
  \<open>(RuneError, 1)\<close>.
\<close>

definition DecodeRuneInString :: "string \<Rightarrow> int \<times> nat" where
  "DecodeRuneInString s =
     (if length s < 1 then (RuneError, 0)
      else
        (let s0 = (of_char (s ! 0) :: nat) in
         if s0 < 0x80 then (int s0, 1)
         else if s0 < 0xC2 \<or> 0xF4 < s0 then (RuneError, 1)
         else
           (let sz = (if s0 < 0xE0 then 2 else if s0 < 0xF0 then 3 else 4 :: nat);
                lo = (if s0 = 0xE0 then 0xA0 else if s0 = 0xF0 then 0x90 else 0x80 :: nat);
                hi = (if s0 = 0xED then 0x9F else if s0 = 0xF4 then 0x8F else 0xBF :: nat)
            in
            if length s < sz then (RuneError, 1)
            else
              (let s1 = (of_char (s ! 1) :: nat) in
               if s1 < lo \<or> hi < s1 then (RuneError, 1)
               else if sz \<le> 2 then (int ((s0 mod 32) * 64 + s1 mod 64), 2)
               else
                 (let s2 = (of_char (s ! 2) :: nat) in
                  if s2 < 0x80 \<or> 0xBF < s2 then (RuneError, 1)
                  else if sz \<le> 3
                  then (int ((s0 mod 16) * 4096 + (s1 mod 64) * 64 + s2 mod 64), 3)
                  else
                    (let s3 = (of_char (s ! 3) :: nat) in
                     if s3 < 0x80 \<or> 0xBF < s3 then (RuneError, 1)
                     else (int ((s0 mod 8) * 262144 + (s1 mod 64) * 4096 +
                                (s2 mod 64) * 64 + s3 mod 64), 4)))))))"

text \<open>
  \<^verbatim>\<open>utf8.AppendRune\<close>, as \<^verbatim>\<open>strings.Builder.WriteRune\<close> calls it: one to four bytes; a
  rune that is no scalar value is written as U+FFFD.
\<close>

definition EncodeRune :: "int \<Rightarrow> string" where
  "EncodeRune r =
     (if 0 \<le> r \<and> r \<le> 0x7F then [char_of (nat r)]
      else if 0 \<le> r \<and> r \<le> 0x7FF
      then [char_of (0xC0 + nat r div 64), char_of (0x80 + nat r mod 64)]
      else
        (let i = (if ValidRune r then nat r else nat RuneError) in
         if i \<le> 0xFFFF
         then [char_of (0xE0 + i div 4096), char_of (0x80 + (i div 64) mod 64),
               char_of (0x80 + i mod 64)]
         else [char_of (0xF0 + i div 262144), char_of (0x80 + (i div 4096) mod 64),
               char_of (0x80 + (i div 64) mod 64), char_of (0x80 + i mod 64)]))"

text \<open>
  \<^verbatim>\<open>strings.Map(mapping, s)\<close>: the loop over the runes of \<open>s\<close>; a negative result of the
  mapping drops the rune. The rest of the string after a rune of width \<open>width\<close> is
  \<open>drop width (b # rest)\<close>, written \<open>drop (width - 1) rest\<close> (the width of a rune of a
  non-empty string is at least one).
\<close>

fun strings_Map :: "(int \<Rightarrow> int) \<Rightarrow> string \<Rightarrow> string" where
  "strings_Map mapping [] = []"
| "strings_Map mapping (b # rest) =
     (let (c, width) = DecodeRuneInString (b # rest);
          r = mapping c
      in (if 0 \<le> r then EncodeRune r else []) @ strings_Map mapping (drop (width - 1) rest))"

definition unicode_ToLower :: "(int \<Rightarrow> int) \<Rightarrow> int \<Rightarrow> int" where
  "unicode_ToLower caseTable r =
     (if r \<le> 0x7F then (if 0x41 \<le> r \<and> r \<le> 0x5A then r + 0x20 else r)
      else caseTable r)"

definition ToLower :: "(int \<Rightarrow> int) \<Rightarrow> string \<Rightarrow> string" where
  "ToLower caseTable s =
     (if list_all (\<lambda>c. (of_char c :: nat) < 0x80) s
      then (if list_ex (\<lambda>c. 0x41 \<le> (of_char c :: nat) \<and> (of_char c :: nat) \<le> 0x5A) s
            then map toLowerChar s else s)
      else strings_Map (unicode_ToLower caseTable) s)"

text \<open>
  A table for concrete runs, with two of Unicode's pairs: U+00C9 goes to U+00E9 and the Kelvin
  sign U+212A goes to the letter k; every other rune stays.
\<close>

definition sampleCaseTable :: "int \<Rightarrow> int" where
  "sampleCaseTable r = (if r = 0xC9 then 0xE9 else if r = 0x212A then 0x6B else r)"

text \<open>\<^verbatim>\<open>strings.HasSuffix(s, suffix)\<close> and \<^verbatim>\<open>strings.TrimSuffix(s, suffix)\<close>.\<close>

definition HasSuffix :: "string \<Rightarrow> string \<Rightarrow> bool" where
  "HasSuffix s suf =
     (length suf \<le> length s \<and> drop (length s - length suf) s = suf)"

definition TrimSuffix :: "string \<Rightarrow> string \<Rightarrow> string" where
  "TrimSuffix s suf = (if HasSuffix s suf then take (length s - length suf) s else s)"

text \<open>
  \<^verbatim>\<open>strings.Split(s, sep)\<close> for a separator of one byte (every call in the file passes
  \<^verbatim>\<open>"/"\<close>): the pieces between the separators, one more than there are separators, so
  the empty string gives one empty piece. The result is never empty; the \<open>[]\<close> branch of the
  inner case is there for totality only.
\<close>

fun Split :: "string \<Rightarrow> char \<Rightarrow> string list" where
  "Split [] sep = [[]]"
| "Split (c # cs) sep =
     (if c = sep then [] # Split cs sep
      else (case Split cs sep of [] \<Rightarrow> [[c]] | p # ps \<Rightarrow> (c # p) # ps))"

subsection \<open>Data\<close>

text \<open>
  \<^verbatim>\<open>schema.GroupVersion\<close> and \<^verbatim>\<open>schema.GroupVersionResource\<close>; the second has the
  fields of the first and \<^verbatim>\<open>Resource\<close>.
\<close>

record GroupVersion =
  Group :: string
  Version :: string

record GroupVersionResource = GroupVersion +
  Resource :: string

text \<open>
  \<^verbatim>\<open>metav1.APIResource\<close> and \<^verbatim>\<open>metav1.APIResourceList\<close>, with the fields the file reads.
\<close>

record APIResource =
  Name :: string
  Namespaced :: bool
  Verbs :: "string list"

record APIResourceList =
  GroupVersion :: string
  APIResources :: "APIResource list"

text \<open>
  The package-level state. \<^verbatim>\<open>ResourceGroupMapping\<close> is a Go map; it is kept as an association
  list, looked up with \<^const>\<open>map_of\<close>, because \<^verbatim>\<open>getResourceTriplets\<close> ranges over it. Go
  leaves the order of that iteration open; here it is the order of insertion.
\<close>

record registry =
  ResourceGroupMapping :: "(string \<times> string) list"
  ResourceClusterScope :: "string list"
  ResourceNamesapcedScope :: "string list"

definition emptyRegistry :: registry where
  "emptyRegistry =
     \<lparr>ResourceGroupMapping = [], ResourceClusterScope = [], ResourceNamesapcedScope = []\<rparr>"

text \<open>
  Errors: the value built by \<^verbatim>\<open>fmt.Errorf\<close>, carrying its message, and the panic of
  dereferencing a nil pointer.
\<close>

datatype error = Errorf string | NilPointerDereference

text \<open>Values of type \<^verbatim>\<open>interface{}\<close> in a decoded document: a string, or something else.\<close>

datatype interface = StringVal string | BoolVal bool | IntVal int | NilVal | OtherVal

subsection \<open>Helpers\<close>

definition ValueNotFound :: int where
  "ValueNotFound = - 1"

fun StringInSlice_from :: "nat \<Rightarrow> string list \<Rightarrow> string \<Rightarrow> int" where
  "StringInSlice_from i [] str = ValueNotFound"
| "StringInSlice_from i (x # xs) str =
     (if x = str then int i else StringInSlice_from (Suc i) xs str)"

definition StringInSlice :: "string list \<Rightarrow> string \<Rightarrow> int" where
  "StringInSlice strSlice str = StringInSlice_from 0 strSlice str"

definition JoinGroupVersion :: "string \<Rightarrow> string \<Rightarrow> string" where
  "JoinGroupVersion grp version = grp @ ''/'' @ version"

definition SplitApiVersion :: "string \<Rightarrow> string \<times> string" where
  "SplitApiVersion apiVersion =
     (let p = Split apiVersion (CHR ''/'');
          grp = (if 1 \<le> length p then p ! 0 else '''');
          version = (if 2 \<le> length p then p ! 1 else '''')
      in (grp, version))"

definition JoinResourceTriplets :: "string \<Rightarrow> string \<Rightarrow> string \<Rightarrow> string" where
  "JoinResourceTriplets grp version resource = grp @ ''/'' @ version @ ''/'' @ resource"

definition GroupVersionResourceToString :: "GroupVersionResource \<Rightarrow> string" where
  "GroupVersionResourceToString resource =
     JoinResourceTriplets (Group resource) (Version resource) (Resource resource)"

definition ignoreGroups :: "string list" where
  "ignoreGroups = [''metrics.k8s.io'']"

subsection \<open>Normalization\<close>

definition updateResourceKind :: "(int \<Rightarrow> int) \<Rightarrow> string \<Rightarrow> string" where
  "updateResourceKind caseTable resource0 =
     (let resource = ToLower caseTable resource0 in
      if resource \<noteq> '''' \<and> \<not> HasSuffix resource ''s'' then
        (if HasSuffix resource ''y'' then TrimSuffix resource ''y'' @ ''ies''
         else resource @ ''s'')
      else resource)"

text \<open>
  The normalization rule in the words of the specification (section 4.2), to be compared with
  \<open>updateResourceKind\<close>: lower-case the input; the empty string stays; a name ending in
  \<open>s\<close> stays; a trailing \<open>y\<close> becomes \<open>ies\<close>; otherwise \<open>s\<close> is appended.
\<close>

definition Normalize :: "(int \<Rightarrow> int) \<Rightarrow> string \<Rightarrow> string" where
  "Normalize caseTable name =
     (let l = ToLower caseTable name in
      if l = '''' then ''''
      else if last l = CHR ''s'' then l
      else if last l = CHR ''y'' then butlast l @ ''ies''
      else l @ ''s'')"

subsection \<open>Lookup\<close>

definition unknownResourceMessage :: "string \<Rightarrow> string" where
  "unknownResourceMessage resource =
     ''resource '' @ [CHR 0x27] @ resource @ [CHR 0x27] @
     '' unknown. Make sure the resource is found at '' @
     [CHR 0x60] @ ''kubectl api-resources'' @ [CHR 0x60]"

text \<open>Lines 85 to 88 of \<^verbatim>\<open>GetGroupVersionResource\<close>, reached when the map gives no triple.\<close>

definition GetGroupVersionResource_rest :: "string \<Rightarrow> error + GroupVersionResource" where
  "GetGroupVersionResource_rest resource =
     (if resource = '''' \<or> resource = ''*''
      then Inr \<lparr>Group = '''', Version = '''', Resource = ''''\<rparr>
      else Inl (Errorf (unknownResourceMessage resource)))"

definition GetGroupVersionResource ::
  "(int \<Rightarrow> int) \<Rightarrow> registry \<Rightarrow> string \<Rightarrow> error + GroupVersionResource"
where
  "GetGroupVersionResource caseTable reg resource0 =
     (let resource = updateResourceKind caseTable resource0 in
      case map_of (ResourceGroupMapping reg) resource of
        Some r \<Rightarrow>
          (let gv = Split r (CHR ''/'') in
           if 2 \<le> length gv
           then Inr \<lparr>Group = gv ! 0, Version = gv ! 1, Resource = resource\<rparr>
           else GetGroupVersionResource_rest resource)
      | None \<Rightarrow> GetGroupVersionResource_rest resource)"

definition IsKindKubernetes :: "(int \<Rightarrow> int) \<Rightarrow> registry \<Rightarrow> string \<Rightarrow> bool" where
  "IsKindKubernetes caseTable reg kind =
     (case GetGroupVersionResource caseTable reg kind of Inr _ \<Rightarrow> True | Inl _ \<Rightarrow> False)"

text \<open>
  \<^verbatim>\<open>IsNamespaceScope\<close> takes a pointer: \<open>None\<close> is the nil pointer, whose dereference
  panics. The call of \<^verbatim>\<open>GetGroupVersionResource\<close> is kept; its result is dropped, as in the
  source.
\<close>

definition IsNamespaceScope ::
  "(int \<Rightarrow> int) \<Rightarrow> registry \<Rightarrow> GroupVersionResource option \<Rightarrow> error + bool"
where
  "IsNamespaceScope caseTable reg resource =
     (case resource of
        None \<Rightarrow> Inl NilPointerDereference
      | Some r \<Rightarrow>
          (let _ = GetGroupVersionResource caseTable reg (Resource r) in
           Inr (StringInSlice (ResourceNamesapcedScope reg) (GroupVersionResourceToString r)
                  \<noteq> ValueNotFound)))"

definition IsResourceInNamespaceScope ::
  "(int \<Rightarrow> int) \<Rightarrow> registry \<Rightarrow> string \<Rightarrow> error + bool"
where
  "IsResourceInNamespaceScope caseTable reg resource =
     (case GetGroupVersionResource caseTable reg resource of
        Inl err \<Rightarrow> Inr False
      | Inr gvr \<Rightarrow> IsNamespaceScope caseTable reg (Some gvr))"

subsection \<open>Population\<close>

text \<open>
  \<^verbatim>\<open>schema.ParseGroupVersion\<close> belongs to k8s.io/apimachinery, not to this repository, so
  \<^verbatim>\<open>setMapResources\<close> takes the parser as its first argument and the theorems about population
  hold for every parser. The definition below is that library function as its documentation
  describes it (empty string and \<^verbatim>\<open>"/"\<close> give the empty pair, no slash gives a version alone,
  one slash gives group and version, more is an error); it is used at concrete inputs only.
\<close>

definition ParseGroupVersion :: "string \<Rightarrow> error + GroupVersion" where
  "ParseGroupVersion gv =
     (if length gv = 0 \<or> gv = ''/'' then Inr \<lparr>Group = '''', Version = ''''\<rparr>
      else (case Split gv (CHR ''/'') of
              [v] \<Rightarrow> Inr \<lparr>Group = '''', Version = v\<rparr>
            | [g, v] \<Rightarrow> Inr \<lparr>Group = g, Version = v\<rparr>
            | _ \<Rightarrow> Inl (Errorf (''unexpected GroupVersion string: '' @ gv))))"

text \<open>The inner loop of \<^verbatim>\<open>setMapResources\<close> (lines 50 to 64), over the resources of one entry.\<close>

fun setMapResources_inner :: "GroupVersion \<Rightarrow> registry \<Rightarrow> APIResource list \<Rightarrow> registry" where
  "setMapResources_inner gv reg [] = reg"
| "setMapResources_inner gv reg (apiResource # rest) =
     (if length (Verbs apiResource) = 0 then setMapResources_inner gv reg rest
      else if map_of (ResourceGroupMapping reg) (Name apiResource) \<noteq> None
      then setMapResources_inner gv reg rest
      else
        (let reg1 = reg\<lparr>ResourceGroupMapping :=
                 ResourceGroupMapping reg @
                   [(Name apiResource, JoinGroupVersion (Group gv) (Version gv))]\<rparr>;
             reg2 =
               (if Namespaced apiResource
                then reg1\<lparr>ResourceNamesapcedScope :=
                       ResourceNamesapcedScope reg1 @
                         [JoinResourceTriplets (Group gv) (Version gv) (Name apiResource)]\<rparr>
                else reg1\<lparr>ResourceClusterScope :=
                       ResourceClusterScope reg1 @
                         [JoinResourceTriplets (Group gv) (Version gv) (Name apiResource)]\<rparr>)
         in setMapResources_inner gv reg2 rest))"

text \<open>The outer loop; an entry of the slice is a pointer, \<open>None\<close> when nil.\<close>

fun setMapResources ::
  "(string \<Rightarrow> error + GroupVersion) \<Rightarrow> registry \<Rightarrow> APIResourceList option list \<Rightarrow> registry"
where
  "setMapResources parse reg [] = reg"
| "setMapResources parse reg (entry # rest) =
     (case entry of
        None \<Rightarrow> setMapResources parse reg rest
      | Some l \<Rightarrow>
          if length (APIResources l) = 0 then setMapResources parse reg rest
          else
            (case parse (GroupVersion l) of
               Inl err \<Rightarrow> setMapResources parse reg rest
             | Inr gv \<Rightarrow>
                 if StringInSlice ignoreGroups (Group gv) \<noteq> ValueNotFound
                 then setMapResources parse reg rest
                 else setMapResources parse
                        (setMapResources_inner gv reg (APIResources l)) rest))"

subsection \<open>Expansion of partial triples\<close>

definition getResourceTriplets :: "registry \<Rightarrow> string \<Rightarrow> string \<Rightarrow> string \<Rightarrow> string list" where
  "getResourceTriplets reg grp version resource =
     (if resource = '''' then
        concat (map (\<lambda>(k, v).
                  let g = Split v (CHR ''/'') in
                  if 2 \<le> length g then [JoinResourceTriplets (g ! 0) (g ! 1) k] else [])
                (ResourceGroupMapping reg))
      else if version = '''' then
        (case map_of (ResourceGroupMapping reg) resource of
           Some v \<Rightarrow>
             (let g = Split v (CHR ''/'') in
              if 2 \<le> length g
              then [JoinResourceTriplets (if grp = '''' then g ! 0 else grp) (g ! 1) resource]
              else [])
         | None \<Rightarrow> [])
      else if grp = '''' then
        (case map_of (ResourceGroupMapping reg) resource of
           Some v \<Rightarrow>
             (let g = Split v (CHR ''/'') in
              if 1 \<le> length g then [JoinResourceTriplets (g ! 0) version resource] else [])
         | None \<Rightarrow> [])
      else [JoinResourceTriplets grp version resource])"

definition ResourceGroupToSlice ::
  "(int \<Rightarrow> int) \<Rightarrow> registry \<Rightarrow> string \<Rightarrow> string \<Rightarrow> string \<Rightarrow> string list"
where
  "ResourceGroupToSlice caseTable reg group0 version0 resource0 =
     (let grp = (if group0 = ''*'' then '''' else group0);
          version = (if version0 = ''*'' then '''' else version0);
          resource = (if resource0 = ''*'' then '''' else resource0)
      in if \<not> IsKindKubernetes caseTable reg resource
         then [JoinResourceTriplets grp version resource]
         else getResourceTriplets reg grp version (updateResourceKind caseTable resource))"

definition ResourceGroupToString ::
  "(int \<Rightarrow> int) \<Rightarrow> registry \<Rightarrow> string \<Rightarrow> string \<Rightarrow> string \<Rightarrow> string list"
where
  "ResourceGroupToString caseTable reg grp version resource =
     ResourceGroupToSlice caseTable reg grp version resource"

definition StringToResourceGroup :: "string \<Rightarrow> string \<times> string \<times> string" where
  "StringToResourceGroup str =
     (let splitted = map (\<lambda>p. if p = ''*'' then '''' else p) (Split str (CHR ''/'')) in
      if length splitted = 3 then (splitted ! 0, splitted ! 1, splitted ! 2)
      else ('''', '''', ''''))"

subsection \<open>Manifest classifier\<close>

text \<open>The argument is a Go map, \<open>None\<close> when it is nil.\<close>

definition IsTypeWorkload ::
  "(int \<Rightarrow> int) \<Rightarrow> registry \<Rightarrow> (string \<rightharpoonup> interface) option \<Rightarrow> bool"
where
  "IsTypeWorkload caseTable reg object =
     (case object of
        None \<Rightarrow> False
      | Some m \<Rightarrow>
          (case m ''apiVersion'' of
             None \<Rightarrow> False
           | Some _ \<Rightarrow>
               (case m ''kind'' of
                  Some (StringVal k) \<Rightarrow> (if IsKindKubernetes caseTable reg k then True else False)
                | _ \<Rightarrow> False)))"

section \<open>Properties\<close>

subsection \<open>UTF-8: decoding what was encoded\<close>

lemma of_char_char_of_nat: "n < 256 \<Longrightarrow> (of_char (char_of n) :: nat) = n"
  by simp

lemma dec1:
  assumes "a < 0x80"
  shows "DecodeRuneInString (char_of a # rest) = (int a, 1)"
  using assms by (simp add: DecodeRuneInString_def Let_def)

lemma dec2:
  assumes "0xC2 \<le> a" "a \<le> 0xDF" "0x80 \<le> b" "b \<le> 0xBF"
  shows "DecodeRuneInString (char_of a # char_of b # rest) =
         (int ((a mod 32) * 64 + b mod 64), 2)"
proof -
  have a: "(of_char (char_of a) :: nat) = a" using assms by simp
  have b: "(of_char (char_of b) :: nat) = b" using assms by simp
  show ?thesis using assms
    by (simp add: DecodeRuneInString_def Let_def a b)
qed

lemma dec3:
  assumes "0xE0 \<le> a" "a \<le> 0xEF"
    and "(if a = 0xE0 then 0xA0 else 0x80) \<le> b" "b \<le> (if a = 0xED then 0x9F else 0xBF)"
    and "0x80 \<le> c" "c \<le> 0xBF"
  shows "DecodeRuneInString (char_of a # char_of b # char_of c # rest) =
         (int ((a mod 16) * 4096 + (b mod 64) * 64 + c mod 64), 3)"
proof -
  have a: "(of_char (char_of a) :: nat) = a" using assms by simp
  have b: "(of_char (char_of b) :: nat) = b" using assms by (simp split: if_splits)
  have c: "(of_char (char_of c) :: nat) = c" using assms by simp
  show ?thesis using assms
    by (simp add: DecodeRuneInString_def Let_def a b c split: if_splits)
qed

lemma dec4:
  assumes "0xF0 \<le> a" "a \<le> 0xF4"
    and "(if a = 0xF0 then 0x90 else 0x80) \<le> b" "b \<le> (if a = 0xF4 then 0x8F else 0xBF)"
    and "0x80 \<le> c" "c \<le> 0xBF" "0x80 \<le> d" "d \<le> 0xBF"
  shows "DecodeRuneInString (char_of a # char_of b # char_of c # char_of d # rest) =
         (int ((a mod 8) * 262144 + (b mod 64) * 4096 + (c mod 64) * 64 + d mod 64), 4)"
proof -
  have a: "(of_char (char_of a) :: nat) = a" using assms by simp
  have b: "(of_char (char_of b) :: nat) = b" using assms by (simp split: if_splits)
  have c: "(of_char (char_of c) :: nat) = c" using assms by simp
  have d: "(of_char (char_of d) :: nat) = d" using assms by simp
  show ?thesis using assms
    by (simp add: DecodeRuneInString_def Let_def a b c d split: if_splits)
qed

lemma m32: "q < 32 \<Longrightarrow> (192 + q) mod 32 = (q::nat)"
  using mod_mult_self3 [of 6 32 q] by simp

lemma m16: "q < 16 \<Longrightarrow> (224 + q) mod 16 = (q::nat)"
  using mod_mult_self3 [of 14 16 q] by simp

lemma m8: "q < 8 \<Longrightarrow> (240 + q) mod 8 = (q::nat)"
  using mod_mult_self3 [of 30 8 q] by simp

lemma m64: "q < 64 \<Longrightarrow> (128 + q) mod 64 = (q::nat)"
  using mod_mult_self3 [of 2 64 q] by simp

lemma split2:
  fixes i :: nat
  assumes "i \<le> 0x7FF"
  obtains q m where "i = 64 * q + m" "q < 32" "m < 64" "i div 64 = q" "i mod 64 = m"
proof
  show "i = 64 * (i div 64) + i mod 64" by simp
  show "i div 64 < 32" using assms by (simp add: div_less_iff_less_mult)
  show "i mod 64 < 64" by simp
qed simp_all

lemma split3:
  fixes i :: nat
  assumes "i \<le> 0xFFFF"
  obtains a b c where "i = 4096 * a + 64 * b + c" "a < 16" "b < 64" "c < 64"
    "i div 4096 = a" "(i div 64) mod 64 = b" "i mod 64 = c"
proof
  have d: "i div 4096 = (i div 64) div 64" by (simp add: div_mult2_eq)
  have e1: "i = 64 * (i div 64) + i mod 64" by simp
  have e2: "i div 64 = 64 * ((i div 64) div 64) + (i div 64) mod 64" by simp
  show "i = 4096 * (i div 4096) + 64 * ((i div 64) mod 64) + i mod 64"
    unfolding d using e1 e2 by linarith
  show "i div 4096 < 16" using assms by (simp add: div_less_iff_less_mult)
  show "(i div 64) mod 64 < 64" by simp
  show "i mod 64 < 64" by simp
qed simp_all

lemma split4:
  fixes i :: nat
  assumes "i \<le> 0x10FFFF"
  obtains a b c d where "i = 262144 * a + 4096 * b + 64 * c + d" "a \<le> 4" "b < 64" "c < 64"
    "d < 64" "i div 262144 = a" "(i div 4096) mod 64 = b" "(i div 64) mod 64 = c" "i mod 64 = d"
proof
  have d1: "i div 4096 = (i div 64) div 64" by (simp add: div_mult2_eq)
  have d2: "i div 262144 = ((i div 64) div 64) div 64" by (simp add: div_mult2_eq)
  have e1: "i = 64 * (i div 64) + i mod 64" by simp
  have e2: "i div 64 = 64 * ((i div 64) div 64) + (i div 64) mod 64" by simp
  have e3: "(i div 64) div 64 = 64 * (((i div 64) div 64) div 64) + ((i div 64) div 64) mod 64"
    by simp
  show "i = 262144 * (i div 262144) + 4096 * ((i div 4096) mod 64)
      + 64 * ((i div 64) mod 64) + i mod 64"
    unfolding d1 d2 using e1 e2 e3 by linarith
  have "i div 262144 < 5" using assms by (simp add: div_less_iff_less_mult)
  then show "i div 262144 \<le> 4" by simp
  show "(i div 4096) mod 64 < 64" by simp
  show "(i div 64) mod 64 < 64" by simp
  show "i mod 64 < 64" by simp
qed simp_all

lemma DecodeRune_EncodeRune:
  assumes "ValidRune v"
  shows "DecodeRuneInString (EncodeRune v @ rest) = (v, length (EncodeRune v))"
proof -
  define i where "i = nat v"
  from assms have nn: "0 \<le> v" and top: "v \<le> 0x10FFFF" by (auto simp: ValidRune_def)
  from nn have vi: "v = int i" by (simp add: i_def)
  consider (one) "i \<le> 0x7F" | (two) "0x7F < i" "i \<le> 0x7FF" | (three) "0x7FF < i" "i \<le> 0xFFFF"
    | (four) "0xFFFF < i" by linarith
  then show ?thesis
  proof cases
    case one
    then have "i < 0x80" by simp
    then have "DecodeRuneInString (char_of i # rest) = (int i, 1)" by (rule dec1)
    with one show ?thesis by (simp add: EncodeRune_def vi)
  next
    case two
    from two(2) obtain q m where s: "i = 64 * q + m" "q < 32" "m < 64"
      and dm: "i div 64 = q" "i mod 64 = m"
      by (rule split2)
    from two s have q2: "2 \<le> q" by linarith
    have "EncodeRune v = [char_of (0xC0 + i div 64), char_of (0x80 + i mod 64)]"
      using two by (simp add: EncodeRune_def vi)
    then have enc: "EncodeRune v = [char_of (0xC0 + q), char_of (0x80 + m)]"
      by (simp only: dm)
    have "DecodeRuneInString (char_of (0xC0 + q) # char_of (0x80 + m) # rest) =
         (int (((0xC0 + q) mod 32) * 64 + (0x80 + m) mod 64), 2)"
      using s q2 by (intro dec2) simp_all
    also have "((0xC0 + q) mod 32) * 64 + (0x80 + m) mod 64 = i"
      using s by (simp add: m32 m64)
    finally show ?thesis by (simp add: enc vi [symmetric])
  next
    case three
    from three(2) obtain a b c where s: "i = 4096 * a + 64 * b + c" "a < 16" "b < 64" "c < 64"
      and dm: "i div 4096 = a" "(i div 64) mod 64 = b" "i mod 64 = c"
      by (rule split3)
    from assms three have sur: "i < 0xD800 \<or> 0xDFFF < i" by (auto simp: ValidRune_def vi)
    have "EncodeRune v = [char_of (0xE0 + i div 4096), char_of (0x80 + (i div 64) mod 64),
        char_of (0x80 + i mod 64)]"
      using three assms by (simp add: EncodeRune_def vi)
    then have enc: "EncodeRune v = [char_of (0xE0 + a), char_of (0x80 + b), char_of (0x80 + c)]"
      by (simp only: dm)
    have lo: "(if 0xE0 + a = 0xE0 then 0xA0 else 0x80) \<le> 0x80 + b"
      using three s by (auto split: if_splits)
    have hi: "0x80 + b \<le> (if 0xE0 + a = 0xED then 0x9F else 0xBF)"
      using sur s by (auto split: if_splits)
    have "DecodeRuneInString (char_of (0xE0 + a) # char_of (0x80 + b) # char_of (0x80 + c) # rest) =
         (int (((0xE0 + a) mod 16) * 4096 + ((0x80 + b) mod 64) * 64 + (0x80 + c) mod 64), 3)"
      using s lo hi by (intro dec3) simp_all
    also have "((0xE0 + a) mod 16) * 4096 + ((0x80 + b) mod 64) * 64 + (0x80 + c) mod 64 = i"
      using s by (simp add: m16 m64)
    finally show ?thesis by (simp add: enc vi [symmetric])
  next
    case four
    from top have le: "i \<le> 0x10FFFF" by (simp add: vi)
    then obtain a b c d where s: "i = 262144 * a + 4096 * b + 64 * c + d" "a \<le> 4" "b < 64"
      "c < 64" "d < 64"
      and dm: "i div 262144 = a" "(i div 4096) mod 64 = b" "(i div 64) mod 64 = c" "i mod 64 = d"
      by (rule split4)
    have "EncodeRune v = [char_of (0xF0 + i div 262144), char_of (0x80 + (i div 4096) mod 64),
        char_of (0x80 + (i div 64) mod 64), char_of (0x80 + i mod 64)]"
      using four assms by (simp add: EncodeRune_def vi)
    then have enc: "EncodeRune v =
        [char_of (0xF0 + a), char_of (0x80 + b), char_of (0x80 + c), char_of (0x80 + d)]"
      by (simp only: dm)
    have lo: "(if 0xF0 + a = 0xF0 then 0x90 else 0x80) \<le> 0x80 + b"
      using four s by (auto split: if_splits)
    have hi: "0x80 + b \<le> (if 0xF0 + a = 0xF4 then 0x8F else 0xBF)"
      using le s by (auto split: if_splits)
    have "DecodeRuneInString
           (char_of (0xF0 + a) # char_of (0x80 + b) # char_of (0x80 + c) # char_of (0x80 + d) # rest) =
         (int (((0xF0 + a) mod 8) * 262144 + ((0x80 + b) mod 64) * 4096 + ((0x80 + c) mod 64) * 64
               + (0x80 + d) mod 64), 4)"
      using s lo hi by (intro dec4) simp_all
    also have "((0xF0 + a) mod 8) * 262144 + ((0x80 + b) mod 64) * 4096 + ((0x80 + c) mod 64) * 64
               + (0x80 + d) mod 64 = i"
      using s by (simp add: m8 m64)
    finally show ?thesis by (simp add: enc vi [symmetric])
  qed
qed

lemma modC: "0xC0 \<le> a \<Longrightarrow> a \<le> 0xDF \<Longrightarrow> a mod 32 = a - (0xC0::nat)"
  using m32 [of "a - 192"] by simp

lemma modE: "0xE0 \<le> a \<Longrightarrow> a \<le> 0xEF \<Longrightarrow> a mod 16 = a - (0xE0::nat)"
  using m16 [of "a - 224"] by simp

lemma modF: "0xF0 \<le> a \<Longrightarrow> a \<le> 0xF7 \<Longrightarrow> a mod 8 = a - (0xF0::nat)"
  using m8 [of "a - 240"] by simp

lemma mod80: "0x80 \<le> b \<Longrightarrow> b \<le> 0xBF \<Longrightarrow> b mod 64 = b - (0x80::nat)"
  using m64 [of "b - 128"] by simp

lemma DecodeRune_valid: "ValidRune (fst (DecodeRuneInString s))"
proof -
  define s0 where "s0 = (of_char (s ! 0) :: nat)"
  define s1 where "s1 = (of_char (s ! 1) :: nat)"
  define s2 where "s2 = (of_char (s ! 2) :: nat)"
  define s3 where "s3 = (of_char (s ! 3) :: nat)"
  have err: "ValidRune RuneError" by (simp add: ValidRune_def RuneError_def)
  have two: "ValidRune (int ((s0 mod 32) * 64 + s1 mod 64))"
    if "0xC2 \<le> s0" "s0 < 0xE0" "0x80 \<le> s1" "s1 \<le> 0xBF"
    using that by (simp add: ValidRune_def modC mod80)
  have three: "ValidRune (int ((s0 mod 16) * 4096 + (s1 mod 64) * 64 + s2 mod 64))"
    if "0xE0 \<le> s0" "s0 < 0xF0" "0x80 \<le> s1" "s1 \<le> (if s0 = 0xED then 0x9F else 0xBF)"
      "0x80 \<le> s2" "s2 \<le> 0xBF"
    using that by (auto simp: ValidRune_def modE mod80 split: if_splits)
  have four: "ValidRune (int ((s0 mod 8) * 262144 + (s1 mod 64) * 4096 + (s2 mod 64) * 64
      + s3 mod 64))"
    if "0xF0 \<le> s0" "s0 \<le> 0xF4" "(if s0 = 0xF0 then 0x90 else 0x80) \<le> s1"
      "s1 \<le> (if s0 = 0xF4 then 0x8F else 0xBF)"
      "0x80 \<le> s2" "s2 \<le> 0xBF" "0x80 \<le> s3" "s3 \<le> 0xBF"
    using that by (auto simp: ValidRune_def modF mod80 split: if_splits)
  have asc: "ValidRune (int s0)" if "s0 < 0x80"
    using that by (simp add: ValidRune_def)
  show ?thesis
    unfolding DecodeRuneInString_def Let_def s0_def [symmetric] s1_def [symmetric]
      s2_def [symmetric] s3_def [symmetric]
    using err two three four asc
    by (auto split: if_splits simp: not_less not_le)
qed

lemma EncodeRune_not_Nil: "EncodeRune r \<noteq> []"
  by (simp add: EncodeRune_def Let_def)

lemma EncodeRune_last:
  assumes "(of_char (last (EncodeRune v)) :: nat) < 0x80"
  shows "0 \<le> v \<and> v \<le> 0x7F"
proof (rule ccontr)
  assume n: "\<not> (0 \<le> v \<and> v \<le> 0x7F)"
  have b: "(of_char (char_of (0x80 + k mod 64 :: nat)) :: nat) = 0x80 + k mod 64" for k
  proof -
    have "k mod 64 < 64" by simp
    then have "0x80 + k mod 64 < 256" by linarith
    then show ?thesis by simp
  qed
  from n have "\<exists>k. last (EncodeRune v) = char_of (0x80 + k mod 64 :: nat)"
    by (auto simp: EncodeRune_def Let_def)
  then obtain k where "last (EncodeRune v) = char_of (0x80 + k mod 64 :: nat)" by blast
  with assms b [of k] show False by simp
qed

lemma EncodeRune_one:
  assumes "0 \<le> v" "v \<le> 0x7F"
  shows "EncodeRune v = [char_of (nat v)]"
  using assms by (simp add: EncodeRune_def)

lemma EncodeRune_ascii: "(of_char c :: nat) < 0x80 \<Longrightarrow> EncodeRune (int (of_char c)) = [c]"
  by (simp add: EncodeRune_def)

subsection \<open>Lower-casing\<close>

lemma Map_step:
  assumes "ValidRune v"
  shows "strings_Map f (EncodeRune v @ rest) =
         (if 0 \<le> f v then EncodeRune (f v) else []) @ strings_Map f rest"
proof -
  obtain b bs where e: "EncodeRune v = b # bs"
    using EncodeRune_not_Nil [of v] by (cases "EncodeRune v") auto
  have "DecodeRuneInString (b # bs @ rest) = (v, Suc (length bs))"
    using DecodeRune_EncodeRune [OF assms, of rest] by (simp add: e)
  then show ?thesis by (simp add: e)
qed

lemma Map_fixed:
  assumes "\<forall>v\<in>set vs. ValidRune v \<and> f v = v"
  shows "strings_Map f (concat (map EncodeRune vs)) = concat (map EncodeRune vs)"
  using assms
proof (induction vs)
  case Nil
  then show ?case by simp
next
  case (Cons v vs)
  then have v: "ValidRune v" "f v = v" by simp_all
  then have "0 \<le> v" by (auto simp: ValidRune_def)
  with Cons v show ?case by (simp add: Map_step)
qed

lemma Map_range:
  assumes ok: "\<And>r. ValidRune r \<Longrightarrow> ValidRune (f r) \<and> f (f r) = f r"
  shows "\<exists>vs. (\<forall>v\<in>set vs. ValidRune v \<and> f v = v) \<and>
              strings_Map f s = concat (map EncodeRune vs)"
proof (induction s rule: length_induct)
  case (1 s)
  show ?case
  proof (cases s)
    case Nil
    have "(\<forall>v\<in>set []. ValidRune v \<and> f v = v) \<and>
        strings_Map f [] = concat (map EncodeRune [])" by simp
    with Nil show ?thesis by blast
  next
    case (Cons b rest)
    obtain c width where d: "DecodeRuneInString (b # rest) = (c, width)"
      by (cases "DecodeRuneInString (b # rest)")
    from d have "ValidRune c" using DecodeRune_valid [of "b # rest"] by simp
    then have r: "ValidRune (f c)" "f (f c) = f c" using ok by simp_all
    then have nn: "0 \<le> f c" by (auto simp: ValidRune_def)
    have "length (drop (width - 1) rest) < length s" using Cons by simp
    with 1 obtain vs where vs: "\<forall>v\<in>set vs. ValidRune v \<and> f v = v"
      "strings_Map f (drop (width - 1) rest) = concat (map EncodeRune vs)" by blast
    have "strings_Map f s = EncodeRune (f c) @ strings_Map f (drop (width - 1) rest)"
      using Cons d nn by simp
    with vs have "strings_Map f s = concat (map EncodeRune (f c # vs))" by simp
    moreover from r vs have "\<forall>v\<in>set (f c # vs). ValidRune v \<and> f v = v" by simp
    ultimately show ?thesis by blast
  qed
qed

lemma unicode_ToLower_ok:
  assumes tbl: "\<forall>r. 0x7F < r \<longrightarrow> ValidRune r \<longrightarrow>
      ValidRune (tbl r) \<and> unicode_ToLower tbl (tbl r) = tbl r"
    and "ValidRune r"
  shows "ValidRune (unicode_ToLower tbl r) \<and>
         unicode_ToLower tbl (unicode_ToLower tbl r) = unicode_ToLower tbl r"
proof (cases "r \<le> 0x7F")
  case True
  with assms(2) show ?thesis by (auto simp: unicode_ToLower_def ValidRune_def)
next
  case False
  with assms show ?thesis by (simp add: unicode_ToLower_def)
qed

lemma toLowerChar_ascii:
  assumes "(of_char c :: nat) < 0x80"
  shows "(of_char (toLowerChar c) :: nat) < 0x80"
  using assms by (auto simp: toLowerChar_def Let_def)

lemma map_toLowerChar_no_upper:
  "\<not> list_ex (\<lambda>c. 0x41 \<le> (of_char c :: nat) \<and> (of_char c :: nat) \<le> 0x5A) s \<Longrightarrow>
   map toLowerChar s = s"
  by (induction s) (auto simp: toLowerChar_def Let_def)

lemma ToLower_ascii:
  "list_all (\<lambda>c. (of_char c :: nat) < 0x80) s \<Longrightarrow> ToLower tbl s = map toLowerChar s"
  by (simp add: ToLower_def map_toLowerChar_no_upper)

lemma toLowerChar_fixed:
  assumes "0 \<le> v" "v \<le> 0x7F" "unicode_ToLower tbl v = v"
  shows "toLowerChar (char_of (nat v)) = char_of (nat v)"
proof -
  from assms have "\<not> (0x41 \<le> v \<and> v \<le> 0x5A)"
    by (auto simp: unicode_ToLower_def split: if_splits)
  moreover have "(of_char (char_of (nat v)) :: nat) = nat v" using assms by simp
  ultimately show ?thesis using assms by (auto simp: toLowerChar_def Let_def)
qed

lemma ascii_fixed:
  assumes "\<forall>v\<in>set vs. ValidRune v \<and> unicode_ToLower tbl v = v"
    and "list_all (\<lambda>c. (of_char c :: nat) < 0x80) (concat (map EncodeRune vs))"
  shows "map toLowerChar (concat (map EncodeRune vs)) = concat (map EncodeRune vs)"
  using assms
proof (induction vs)
  case Nil
  then show ?case by simp
next
  case (Cons v vs)
  from Cons.prems(2) have a: "list_all (\<lambda>c. (of_char c :: nat) < 0x80) (EncodeRune v)"
    and rest: "list_all (\<lambda>c. (of_char c :: nat) < 0x80) (concat (map EncodeRune vs))"
    by simp_all
  from a have "(of_char (last (EncodeRune v)) :: nat) < 0x80"
    using EncodeRune_not_Nil [of v] by (simp add: list_all_iff)
  then have r: "0 \<le> v" "v \<le> 0x7F" using EncodeRune_last by blast+
  from Cons.prems(1) have "unicode_ToLower tbl v = v" by simp
  with r have "map toLowerChar (EncodeRune v) = EncodeRune v"
    by (simp add: EncodeRune_one toLowerChar_fixed)
  moreover from Cons.IH Cons.prems(1) rest
  have "map toLowerChar (concat (map EncodeRune vs)) = concat (map EncodeRune vs)" by simp
  ultimately show ?case by simp
qed

text \<open>A string made of lower-cased scalar values is left alone by \<open>ToLower\<close>.\<close>

lemma ToLower_fixed:
  assumes "\<forall>v\<in>set vs. ValidRune v \<and> unicode_ToLower tbl v = v"
  shows "ToLower tbl (concat (map EncodeRune vs)) = concat (map EncodeRune vs)"
proof (cases "list_all (\<lambda>c. (of_char c :: nat) < 0x80) (concat (map EncodeRune vs))")
  case True
  with assms have "map toLowerChar (concat (map EncodeRune vs)) = concat (map EncodeRune vs)"
    by (rule ascii_fixed)
  with True show ?thesis by (simp add: ToLower_ascii)
next
  case False
  with Map_fixed [OF assms] show ?thesis by (simp add: ToLower_def)
qed

lemma ascii_range:
  assumes "list_all (\<lambda>c. (of_char c :: nat) < 0x80) s"
  shows "\<exists>vs. (\<forall>v\<in>set vs. ValidRune v \<and> unicode_ToLower tbl v = v) \<and>
              map toLowerChar s = concat (map EncodeRune vs)"
  using assms
proof (induction s)
  case Nil
  have "(\<forall>v\<in>set []. ValidRune v \<and> unicode_ToLower tbl v = v) \<and>
      map toLowerChar [] = concat (map EncodeRune [])" by simp
  then show ?case by blast
next
  case (Cons c s)
  then obtain vs where vs: "\<forall>v\<in>set vs. ValidRune v \<and> unicode_ToLower tbl v = v"
    "map toLowerChar s = concat (map EncodeRune vs)" by auto
  let ?v = "int (of_char (toLowerChar c))"
  from Cons.prems have c: "(of_char c :: nat) < 0x80" by simp
  then have lt: "(of_char (toLowerChar c) :: nat) < 0x80" by (rule toLowerChar_ascii)
  then have "ValidRune ?v" by (simp add: ValidRune_def)
  moreover from c have "unicode_ToLower tbl ?v = ?v"
    by (auto simp: toLowerChar_def unicode_ToLower_def Let_def)
  moreover from lt have "EncodeRune ?v = [toLowerChar c]" by (rule EncodeRune_ascii)
  ultimately have "(\<forall>v\<in>set (?v # vs). ValidRune v \<and> unicode_ToLower tbl v = v) \<and>
      map toLowerChar (c # s) = concat (map EncodeRune (?v # vs))"
    using vs by simp
  then show ?case by blast
qed

text \<open>Every result of \<open>ToLower\<close> is made of lower-cased scalar values.\<close>

lemma ToLower_range:
  assumes tbl: "\<forall>r. 0x7F < r \<longrightarrow> ValidRune r \<longrightarrow>
      ValidRune (tbl r) \<and> unicode_ToLower tbl (tbl r) = tbl r"
  shows "\<exists>vs. (\<forall>v\<in>set vs. ValidRune v \<and> unicode_ToLower tbl v = v) \<and>
              ToLower tbl s = concat (map EncodeRune vs)"
proof (cases "list_all (\<lambda>c. (of_char c :: nat) < 0x80) s")
  case True
  then show ?thesis using ascii_range [OF True, of tbl] by (simp add: ToLower_ascii)
next
  case False
  have "\<exists>vs. (\<forall>v\<in>set vs. ValidRune v \<and> unicode_ToLower tbl v = v) \<and>
      strings_Map (unicode_ToLower tbl) s = concat (map EncodeRune vs)"
    by (rule Map_range) (rule unicode_ToLower_ok [OF tbl])
  with False show ?thesis by (simp add: ToLower_def)
qed

lemma lowered_butlast:
  assumes good: "\<forall>v\<in>set vs. ValidRune v \<and> unicode_ToLower tbl v = v"
    and ne: "concat (map EncodeRune vs) \<noteq> []"
    and asc: "(of_char (last (concat (map EncodeRune vs))) :: nat) < 0x80"
  shows "\<exists>ws. (\<forall>v\<in>set ws. ValidRune v \<and> unicode_ToLower tbl v = v) \<and>
              butlast (concat (map EncodeRune vs)) = concat (map EncodeRune ws)"
proof (cases vs rule: rev_cases)
  case Nil
  with ne show ?thesis by simp
next
  case (snoc ws v)
  then have u: "concat (map EncodeRune vs) = concat (map EncodeRune ws) @ EncodeRune v" by simp
  with asc have "(of_char (last (EncodeRune v)) :: nat) < 0x80"
    using EncodeRune_not_Nil [of v] by simp
  then have "0 \<le> v" "v \<le> 0x7F" using EncodeRune_last by blast+
  then have "EncodeRune v = [char_of (nat v)]" by (rule EncodeRune_one)
  with u have "butlast (concat (map EncodeRune vs)) = concat (map EncodeRune ws)"
    by (simp add: butlast_append)
  moreover from good snoc have "\<forall>v\<in>set ws. ValidRune v \<and> unicode_ToLower tbl v = v" by simp
  ultimately show ?thesis by blast
qed

lemma enc_ies: "concat (map EncodeRune [0x69, 0x65, 0x73]) = ''ies''"
  by code_simp

lemma enc_s: "concat (map EncodeRune [0x73]) = ''s''"
  by code_simp

lemma good_ies: "\<forall>v\<in>set [0x69, 0x65, 0x73]. ValidRune v \<and> unicode_ToLower tbl v = v"
  by (simp add: ValidRune_def unicode_ToLower_def)

subsection \<open>Normalization\<close>

lemma HasSuffix_single: "HasSuffix s [c] = (s \<noteq> [] \<and> last s = c)"
proof (cases s rule: rev_cases)
  case Nil
  then show ?thesis by (simp add: HasSuffix_def)
next
  case (snoc ys y)
  then show ?thesis by (simp add: HasSuffix_def)
qed

lemma TrimSuffix_single: "HasSuffix s [c] \<Longrightarrow> TrimSuffix s [c] = butlast s"
  by (simp add: TrimSuffix_def butlast_conv_take)

lemma updateResourceKind_cases:
  "updateResourceKind tbl x =
     (if ToLower tbl x = [] then []
      else if last (ToLower tbl x) = CHR ''s'' then ToLower tbl x
      else if last (ToLower tbl x) = CHR ''y'' then butlast (ToLower tbl x) @ ''ies''
      else ToLower tbl x @ ''s'')"
  by (simp add: updateResourceKind_def Let_def HasSuffix_single TrimSuffix_single)

text \<open>
  Claim C3. For every input and every case table, \<open>updateResourceKind\<close> computes the rule of
  the specification (\<open>Normalize\<close>): lower-case, keep the empty string and a name ending in s,
  turn a trailing y into ies, append s otherwise; and it gives the five values the
  specification lists.
\<close>

theorem updateResourceKind_Normalize:
  "updateResourceKind tbl x = Normalize tbl x
   \<and> updateResourceKind tbl ''pod'' = ''pods''
   \<and> updateResourceKind tbl ''Deployment'' = ''deployments''
   \<and> updateResourceKind tbl ''networkpolicy'' = ''networkpolicies''
   \<and> updateResourceKind tbl ''pods'' = ''pods''
   \<and> updateResourceKind tbl '''' = ''''"
proof -
  have "updateResourceKind tbl x = Normalize tbl x"
    by (simp add: updateResourceKind_cases Normalize_def Let_def)
  moreover have "updateResourceKind tbl ''pod'' = ''pods''" by code_simp
  moreover have "updateResourceKind tbl ''Deployment'' = ''deployments''" by code_simp
  moreover have "updateResourceKind tbl ''networkpolicy'' = ''networkpolicies''" by code_simp
  moreover have "updateResourceKind tbl ''pods'' = ''pods''" by code_simp
  moreover have "updateResourceKind tbl '''' = ''''" by code_simp
  ultimately show ?thesis by blast
qed

text \<open>
  Claim C9. Normalization is idempotent: applying \<open>updateResourceKind\<close> to its own result
  changes nothing, for every input string, bytes above 127 and invalid UTF-8 included. The
  case table of package unicode is the parameter; what is asked of it is that the lower-case
  image of a scalar value above 127 is a scalar value that lower-casing leaves alone.
\<close>

theorem updateResourceKind_idempotent:
  assumes tbl: "\<forall>r. 0x7F < r \<longrightarrow> ValidRune r \<longrightarrow>
      ValidRune (tbl r) \<and> unicode_ToLower tbl (tbl r) = tbl r"
  shows "updateResourceKind tbl (updateResourceKind tbl x) = updateResourceKind tbl x"
proof -
  let ?l = "ToLower tbl x"
  let ?good = "\<lambda>vs. \<forall>v\<in>set vs. ValidRune v \<and> unicode_ToLower tbl v = v"
  from ToLower_range [OF tbl, of x] obtain vs where vs: "?good vs"
    and l: "?l = concat (map EncodeRune vs)" by blast
  have fixed: "updateResourceKind tbl w = w"
    if "?good ws" "w = concat (map EncodeRune ws)" "w = [] \<or> last w = CHR ''s''" for w ws
  proof -
    from that(1,2) have "ToLower tbl w = w" by (simp add: ToLower_fixed)
    with that(3) show ?thesis by (auto simp: updateResourceKind_cases)
  qed
  show ?thesis
  proof (cases "?l = []")
    case True
    then have "updateResourceKind tbl x = []" by (simp add: updateResourceKind_cases)
    moreover have "updateResourceKind tbl [] = []"
      by (rule fixed [of "[]"]) simp_all
    ultimately show ?thesis by simp
  next
    case ne: False
    show ?thesis
    proof (cases "last ?l = CHR ''s''")
      case True
      with ne have "updateResourceKind tbl x = ?l" by (simp add: updateResourceKind_cases)
      moreover from vs l True have "updateResourceKind tbl ?l = ?l"
        by (intro fixed [of vs]) simp_all
      ultimately show ?thesis by simp
    next
      case ns: False
      show ?thesis
      proof (cases "last ?l = CHR ''y''")
        case True
        with ne ns have r: "updateResourceKind tbl x = butlast ?l @ ''ies''"
          by (simp add: updateResourceKind_cases)
        from True have "(of_char (last ?l) :: nat) < 0x80" by simp
        with vs ne l obtain ws where ws: "?good ws" "butlast ?l = concat (map EncodeRune ws)"
          using lowered_butlast [of vs tbl] by auto
        from ws(1) good_ies [of tbl] have "?good (ws @ [0x69, 0x65, 0x73])" by auto
        moreover from ws(2) have "butlast ?l @ ''ies'' =
            concat (map EncodeRune (ws @ [0x69, 0x65, 0x73]))"
          using enc_ies by simp
        ultimately have "updateResourceKind tbl (butlast ?l @ ''ies'') = butlast ?l @ ''ies''"
          by (rule fixed) simp
        with r show ?thesis by simp
      next
        case False
        with ne ns have r: "updateResourceKind tbl x = ?l @ ''s''"
          by (simp add: updateResourceKind_cases)
        from vs have "?good (vs @ [0x73])" by (auto simp: ValidRune_def unicode_ToLower_def)
        moreover from l have "?l @ ''s'' = concat (map EncodeRune (vs @ [0x73]))"
          using enc_s by simp
        ultimately have "updateResourceKind tbl (?l @ ''s'') = ?l @ ''s''"
          by (rule fixed) simp
        with r show ?thesis by simp
      qed
    qed
  qed
qed

lemma sampleCaseTable_ok:
  "\<forall>r. 0x7F < r \<longrightarrow> ValidRune r \<longrightarrow>
     ValidRune (sampleCaseTable r) \<and>
     unicode_ToLower sampleCaseTable (sampleCaseTable r) = sampleCaseTable r"
proof (intro allI impI)
  fix r :: int
  assume r: "0x7F < r" "ValidRune r"
  consider "r = 0xC9" | "r = 0x212A" | "r \<noteq> 0xC9" "r \<noteq> 0x212A" by blast
  then show "ValidRune (sampleCaseTable r) \<and>
     unicode_ToLower sampleCaseTable (sampleCaseTable r) = sampleCaseTable r"
  proof cases
    case 1
    have "sampleCaseTable 0xC9 = 0xE9" by (simp add: sampleCaseTable_def)
    moreover have "ValidRune 0xE9" by (simp add: ValidRune_def)
    moreover have "unicode_ToLower sampleCaseTable 0xE9 = 0xE9"
      by (simp add: unicode_ToLower_def sampleCaseTable_def)
    ultimately show ?thesis using 1 by simp
  next
    case 2
    have "sampleCaseTable 0x212A = 0x6B" by (simp add: sampleCaseTable_def)
    moreover have "ValidRune 0x6B" by (simp add: ValidRune_def)
    moreover have "unicode_ToLower sampleCaseTable 0x6B = 0x6B"
      by (simp add: unicode_ToLower_def)
    ultimately show ?thesis using 2 by simp
  next
    case 3
    then have "sampleCaseTable r = r" by (simp add: sampleCaseTable_def)
    moreover from r(1) 3 have "unicode_ToLower sampleCaseTable r = r"
      by (simp add: unicode_ToLower_def sampleCaseTable_def)
    ultimately show ?thesis using r(2) by simp
  qed
qed

theorem updateResourceKind_idempotent_witness:
  "updateResourceKind sampleCaseTable [CHR 0xC3, CHR 0x89, CHR ''Y''] =
     [CHR 0xC3, CHR 0xA9, CHR ''i'', CHR ''e'', CHR ''s'']
   \<and> updateResourceKind sampleCaseTable
       (updateResourceKind sampleCaseTable [CHR 0xC3, CHR 0x89, CHR ''Y'']) =
     updateResourceKind sampleCaseTable [CHR 0xC3, CHR 0x89, CHR ''Y'']"
proof -
  have e: "updateResourceKind sampleCaseTable [CHR 0xC3, CHR 0x89, CHR ''Y''] =
     [CHR 0xC3, CHR 0xA9, CHR ''i'', CHR ''e'', CHR ''s'']" by code_simp
  have i: "updateResourceKind sampleCaseTable
       (updateResourceKind sampleCaseTable [CHR 0xC3, CHR 0x89, CHR ''Y'']) =
     updateResourceKind sampleCaseTable [CHR 0xC3, CHR 0x89, CHR ''Y'']"
    by (rule updateResourceKind_idempotent [OF sampleCaseTable_ok])
  from e i show ?thesis by (rule conjI)
qed

subsection \<open>Lookup of a resource name\<close>

text \<open>
  Claim C1. The claim says that \<open>GetGroupVersionResource\<close> succeeds on the wildcard
  \<open>*\<close> with the all-empty triple and that \<open>IsKindKubernetes\<close> holds for it. The code
  normalizes its argument before it compares it with \<open>*\<close>: the wildcard has become
  \<open>*s\<close> by then, the comparison on line 85 never holds for it, and the lookup ends in the
  error. On the registry with nothing in it the wildcard is an unknown resource and not a known
  kind, while the empty string does give the all-empty triple.
\<close>

theorem GetGroupVersionResource_star_unknown:
  "GetGroupVersionResource tbl emptyRegistry ''*'' = Inl (Errorf (unknownResourceMessage ''*s''))
   \<and> IsKindKubernetes tbl emptyRegistry ''*'' = False
   \<and> GetGroupVersionResource tbl emptyRegistry '''' =
       Inr \<lparr>Group = '''', Version = '''', Resource = ''''\<rparr>"
  by code_simp

text \<open>
  Claim C2, amended. When the normalized name is not a key of the map, is not empty and is not
  \<open>*\<close>, \<open>GetGroupVersionResource\<close> returns the error, never a triple; its message
  names the normalized name (not the name as it was passed) and points to
  \<^verbatim>\<open>kubectl api-resources\<close>.
\<close>

theorem GetGroupVersionResource_unknown:
  "map_of (ResourceGroupMapping reg) (updateResourceKind tbl x) = None \<Longrightarrow>
   updateResourceKind tbl x \<noteq> '''' \<Longrightarrow> updateResourceKind tbl x \<noteq> ''*'' \<Longrightarrow>
   GetGroupVersionResource tbl reg x =
     Inl (Errorf (''resource '' @ [CHR 0x27] @ updateResourceKind tbl x @ [CHR 0x27] @
        '' unknown. Make sure the resource is found at '' @
        [CHR 0x60] @ ''kubectl api-resources'' @ [CHR 0x60]))"
  by (simp add: GetGroupVersionResource_def GetGroupVersionResource_rest_def
      unknownResourceMessage_def)

theorem GetGroupVersionResource_unknown_witness:
  "map_of (ResourceGroupMapping emptyRegistry)
      (updateResourceKind sampleCaseTable ''frobnicator'') = None
   \<and> updateResourceKind sampleCaseTable ''frobnicator'' \<noteq> ''''
   \<and> updateResourceKind sampleCaseTable ''frobnicator'' \<noteq> ''*''
   \<and> GetGroupVersionResource sampleCaseTable emptyRegistry ''frobnicator'' =
     Inl (Errorf (''resource '' @ [CHR 0x27] @ ''frobnicators'' @ [CHR 0x27] @
        '' unknown. Make sure the resource is found at '' @
        [CHR 0x60] @ ''kubectl api-resources'' @ [CHR 0x60]))"
proof -
  have u: "updateResourceKind sampleCaseTable ''frobnicator'' = ''frobnicators''" by code_simp
  have h1: "map_of (ResourceGroupMapping emptyRegistry)
      (updateResourceKind sampleCaseTable ''frobnicator'') = None"
    by (simp add: emptyRegistry_def)
  have h2: "updateResourceKind sampleCaseTable ''frobnicator'' \<noteq> ''''" by (simp add: u)
  have h3: "updateResourceKind sampleCaseTable ''frobnicator'' \<noteq> ''*''" by (simp add: u)
  from GetGroupVersionResource_unknown [OF h1 h2 h3] h1 h2 h3 show ?thesis by (simp add: u)
qed

text \<open>
  Claim C2 as stated fails on the name carried: asked for \<open>pod\<close> on the empty registry,
  the error names \<open>pods\<close>, which is not the requested name.
\<close>

theorem GetGroupVersionResource_unknown_name_counterexample:
  "map_of (ResourceGroupMapping emptyRegistry) (updateResourceKind sampleCaseTable ''pod'') = None
   \<and> updateResourceKind sampleCaseTable ''pod'' \<noteq> ''''
   \<and> updateResourceKind sampleCaseTable ''pod'' \<noteq> ''*''
   \<and> GetGroupVersionResource sampleCaseTable emptyRegistry ''pod'' =
       Inl (Errorf (unknownResourceMessage ''pods''))
   \<and> GetGroupVersionResource sampleCaseTable emptyRegistry ''pod'' \<noteq>
       Inl (Errorf (unknownResourceMessage ''pod''))"
  by code_simp

subsection \<open>Joining and splitting triples\<close>

lemma Split_not_Nil: "Split s c \<noteq> []"
  by (induction s) (auto split: list.splits)

lemma length_Split: "length (Split s c) = Suc (count_list s c)"
proof (induction s)
  case Nil
  then show ?case by simp
next
  case (Cons a s)
  then show ?case using Split_not_Nil [of s c] by (auto split: list.splits)
qed

lemma Split_no_sep: "c \<notin> set s \<Longrightarrow> Split s c = [s]"
  by (induction s) auto

lemma Split_append_sep: "c \<notin> set a \<Longrightarrow> Split (a @ c # b) c = a # Split b c"
  by (induction a) auto

lemma Split_triple:
  assumes "CHR ''/'' \<notin> set g" "CHR ''/'' \<notin> set v" "CHR ''/'' \<notin> set r"
  shows "Split (JoinResourceTriplets g v r) (CHR ''/'') = [g, v, r]"
proof -
  have "JoinResourceTriplets g v r = g @ CHR ''/'' # (v @ CHR ''/'' # r)"
    by (simp add: JoinResourceTriplets_def)
  with assms show ?thesis by (simp add: Split_append_sep Split_no_sep)
qed

text \<open>
  Claim C4, amended. For group, version and resource without a slash, splitting the joined
  triple gives the three parts back with every part that is the wildcard \<open>*\<close> replaced by
  the empty string; so when none of them is \<open>*\<close> the split gives exactly the three parts.
  A string that does not hold exactly two slashes splits into three empty strings.
\<close>

theorem StringToResourceGroup_roundtrip:
  "(CHR ''/'' \<notin> set g \<and> CHR ''/'' \<notin> set v \<and> CHR ''/'' \<notin> set r
     \<longrightarrow> StringToResourceGroup (JoinResourceTriplets g v r) =
           (if g = ''*'' then '''' else g, if v = ''*'' then '''' else v,
            if r = ''*'' then '''' else r))
   \<and> (CHR ''/'' \<notin> set g \<and> CHR ''/'' \<notin> set v \<and> CHR ''/'' \<notin> set r
      \<and> g \<noteq> ''*'' \<and> v \<noteq> ''*'' \<and> r \<noteq> ''*''
     \<longrightarrow> StringToResourceGroup (JoinResourceTriplets g v r) = (g, v, r))
   \<and> (count_list str (CHR ''/'') \<noteq> 2 \<longrightarrow> StringToResourceGroup str = ('''', '''', ''''))"
proof (intro conjI impI)
  assume a: "CHR ''/'' \<notin> set g \<and> CHR ''/'' \<notin> set v \<and> CHR ''/'' \<notin> set r"
  then have "Split (JoinResourceTriplets g v r) (CHR ''/'') = [g, v, r]"
    by (simp add: Split_triple)
  then show "StringToResourceGroup (JoinResourceTriplets g v r) =
      (if g = ''*'' then '''' else g, if v = ''*'' then '''' else v,
       if r = ''*'' then '''' else r)"
    by (simp add: StringToResourceGroup_def)
next
  assume a: "CHR ''/'' \<notin> set g \<and> CHR ''/'' \<notin> set v \<and> CHR ''/'' \<notin> set r
      \<and> g \<noteq> ''*'' \<and> v \<noteq> ''*'' \<and> r \<noteq> ''*''"
  then have "Split (JoinResourceTriplets g v r) (CHR ''/'') = [g, v, r]"
    by (simp add: Split_triple)
  with a show "StringToResourceGroup (JoinResourceTriplets g v r) = (g, v, r)"
    by (simp add: StringToResourceGroup_def)
next
  assume "count_list str (CHR ''/'') \<noteq> 2"
  then have "length (Split str (CHR ''/'')) \<noteq> 3" by (simp add: length_Split)
  then show "StringToResourceGroup str = ('''', '''', '''')"
    by (simp add: StringToResourceGroup_def)
qed

theorem StringToResourceGroup_roundtrip_witness:
  "CHR ''/'' \<notin> set ''*'' \<and> CHR ''/'' \<notin> set ''v1'' \<and> CHR ''/'' \<notin> set ''pods''
   \<and> StringToResourceGroup (JoinResourceTriplets ''*'' ''v1'' ''pods'') =
       ('''', ''v1'', ''pods'')
   \<and> CHR ''/'' \<notin> set ''apps'' \<and> CHR ''/'' \<notin> set ''v1'' \<and> CHR ''/'' \<notin> set ''deployments''
   \<and> ''apps'' \<noteq> ''*'' \<and> ''v1'' \<noteq> ''*'' \<and> ''deployments'' \<noteq> ''*''
   \<and> StringToResourceGroup (JoinResourceTriplets ''apps'' ''v1'' ''deployments'') =
       (''apps'', ''v1'', ''deployments'')
   \<and> count_list ''apps/v1'' (CHR ''/'') \<noteq> 2
   \<and> StringToResourceGroup ''apps/v1'' = ('''', '''', '''')"
proof -
  have h0: "CHR ''/'' \<notin> set ''*'' \<and> CHR ''/'' \<notin> set ''v1'' \<and> CHR ''/'' \<notin> set ''pods''"
    by simp
  have h1: "CHR ''/'' \<notin> set ''apps'' \<and> CHR ''/'' \<notin> set ''v1''
      \<and> CHR ''/'' \<notin> set ''deployments''
      \<and> ''apps'' \<noteq> ''*'' \<and> ''v1'' \<noteq> ''*'' \<and> ''deployments'' \<noteq> ''*''"
    by simp
  have h2: "count_list ''apps/v1'' (CHR ''/'') \<noteq> 2" by simp
  from StringToResourceGroup_roundtrip [of "''*''" "''v1''" "''pods''" "''apps/v1''"] h0
  have c0: "StringToResourceGroup (JoinResourceTriplets ''*'' ''v1'' ''pods'') =
      ('''', ''v1'', ''pods'')" by simp
  from StringToResourceGroup_roundtrip [of "''apps''" "''v1''" "''deployments''" "''apps/v1''"]
    h1 h2
  have c1: "StringToResourceGroup (JoinResourceTriplets ''apps'' ''v1'' ''deployments'') =
       (''apps'', ''v1'', ''deployments'')
     \<and> StringToResourceGroup ''apps/v1'' = ('''', '''', '''')" by blast
  from h0 c0 h1 h2 c1 show ?thesis by blast
qed

text \<open>
  Claim C4 as stated fails where a part is the wildcard: the group \<open>*\<close> holds no slash,
  and the split of \<open>*/v1/pods\<close> gives the empty group back, because the loop of
  \<open>StringToResourceGroup\<close> turns every \<open>*\<close> piece into the empty string.
\<close>

theorem StringToResourceGroup_star_counterexample:
  "CHR ''/'' \<notin> set ''*'' \<and> CHR ''/'' \<notin> set ''v1'' \<and> CHR ''/'' \<notin> set ''pods''
   \<and> StringToResourceGroup (JoinResourceTriplets ''*'' ''v1'' ''pods'') = ('''', ''v1'', ''pods'')
   \<and> StringToResourceGroup (JoinResourceTriplets ''*'' ''v1'' ''pods'') \<noteq>
       (''*'', ''v1'', ''pods'')"
  by code_simp

subsection \<open>Namespace scope\<close>

lemma StringInSlice_from_found:
  "(StringInSlice_from i xs s \<noteq> ValueNotFound) = (s \<in> set xs)"
  by (induction xs arbitrary: i) (auto simp: ValueNotFound_def)

lemma StringInSlice_found: "(StringInSlice xs s \<noteq> ValueNotFound) = (s \<in> set xs)"
  by (simp add: StringInSlice_def StringInSlice_from_found)

text \<open>
  Claim C10, amended. \<open>IsNamespaceScope\<close> answers whether the triple, joined as it is given,
  is in the namespaced list; the lookup it makes first changes nothing. So a triple whose
  joined string is not in the list gives false, also when its resource is a singular or
  capitalized name and the triple with the normalized plural name is in the list.
\<close>

theorem IsNamespaceScope_literal:
  "IsNamespaceScope tbl reg (Some r) =
     Inr (JoinResourceTriplets (Group r) (Version r) (Resource r)
            \<in> set (ResourceNamesapcedScope reg))
   \<and> (JoinResourceTriplets (Group r) (Version r) (Resource r)
         \<notin> set (ResourceNamesapcedScope reg)
       \<and> JoinResourceTriplets (Group r) (Version r) (updateResourceKind tbl (Resource r))
         \<in> set (ResourceNamesapcedScope reg)
      \<longrightarrow> IsNamespaceScope tbl reg (Some r) = Inr False)
   \<and> (JoinResourceTriplets (Group r) (Version r) (Resource r)
         \<notin> set (ResourceNamesapcedScope reg)
      \<longrightarrow> IsNamespaceScope tbl reg (Some r) = Inr False)"
proof -
  have gen: "IsNamespaceScope tbl reg (Some r) =
     Inr (JoinResourceTriplets (Group r) (Version r) (Resource r)
            \<in> set (ResourceNamesapcedScope reg))"
    by (simp add: IsNamespaceScope_def Let_def GroupVersionResourceToString_def
        StringInSlice_found)
  then show ?thesis by simp
qed

theorem IsNamespaceScope_literal_witness:
  "JoinResourceTriplets '''' ''v1'' ''pod'' \<notin> set [''/v1/pods'']
   \<and> JoinResourceTriplets '''' ''v1'' (updateResourceKind sampleCaseTable ''pod'')
        \<in> set [''/v1/pods'']
   \<and> IsNamespaceScope sampleCaseTable
        \<lparr>ResourceGroupMapping = [(''pods'', ''/v1'')], ResourceClusterScope = [],
           ResourceNamesapcedScope = [''/v1/pods'']\<rparr>
        (Some \<lparr>Group = '''', Version = ''v1'', Resource = ''pod''\<rparr>) = Inr False
   \<and> IsNamespaceScope sampleCaseTable
        \<lparr>ResourceGroupMapping = [(''pods'', ''/v1'')], ResourceClusterScope = [],
           ResourceNamesapcedScope = [''/v1/pods'']\<rparr>
        (Some \<lparr>Group = '''', Version = ''v1'', Resource = ''pods''\<rparr>) = Inr True"
proof -
  let ?reg = "\<lparr>ResourceGroupMapping = [(''pods'', ''/v1'')], ResourceClusterScope = [],
           ResourceNamesapcedScope = [''/v1/pods'']\<rparr>"
  have h1: "JoinResourceTriplets '''' ''v1'' ''pod'' \<notin> set [''/v1/pods'']" by code_simp
  have h2: "JoinResourceTriplets '''' ''v1'' (updateResourceKind sampleCaseTable ''pod'')
        \<in> set [''/v1/pods'']" by code_simp
  have j: "JoinResourceTriplets '''' ''v1'' ''pods'' \<in> set [''/v1/pods'']" by code_simp
  note t1 = IsNamespaceScope_literal [of sampleCaseTable ?reg
      "\<lparr>Group = '''', Version = ''v1'', Resource = ''pod''\<rparr>"]
  note t2 = IsNamespaceScope_literal [of sampleCaseTable ?reg
      "\<lparr>Group = '''', Version = ''v1'', Resource = ''pods''\<rparr>"]
  from t1 h1 h2 have c1: "IsNamespaceScope sampleCaseTable ?reg
      (Some \<lparr>Group = '''', Version = ''v1'', Resource = ''pod''\<rparr>) = Inr False" by simp
  from t2 [THEN conjunct1] j have c2: "IsNamespaceScope sampleCaseTable ?reg
      (Some \<lparr>Group = '''', Version = ''v1'', Resource = ''pods''\<rparr>) = Inr True" by simp
  show ?thesis by (intro conjI h1 h2 c1 c2)
qed

text \<open>
  Claim C10 as stated fails where the singular or capitalized name is itself registered:
  population stores names as the snapshot gives them, so after a snapshot with the resources
  \<open>Pod\<close> and \<open>pods\<close> of version \<open>v1\<close>, both namespaced, the triple with resource
  \<open>Pod\<close> (which normalizes to \<open>pods\<close>) is reported as namespaced.
\<close>

theorem IsNamespaceScope_capitalized_counterexample:
  "updateResourceKind sampleCaseTable ''Pod'' = ''pods''
   \<and> ResourceNamesapcedScope (setMapResources ParseGroupVersion emptyRegistry
        [Some \<lparr>GroupVersion = ''v1'', APIResources =
           [\<lparr>Name = ''Pod'', Namespaced = True, Verbs = [''get'']\<rparr>,
            \<lparr>Name = ''pods'', Namespaced = True, Verbs = [''get'']\<rparr>]\<rparr>]) =
       [''/v1/Pod'', ''/v1/pods'']
   \<and> IsNamespaceScope sampleCaseTable
        (setMapResources ParseGroupVersion emptyRegistry
          [Some \<lparr>GroupVersion = ''v1'', APIResources =
             [\<lparr>Name = ''Pod'', Namespaced = True, Verbs = [''get'']\<rparr>,
              \<lparr>Name = ''pods'', Namespaced = True, Verbs = [''get'']\<rparr>]\<rparr>])
        (Some \<lparr>Group = '''', Version = ''v1'', Resource = ''Pod''\<rparr>) = Inr True
   \<and> IsNamespaceScope sampleCaseTable
        (setMapResources ParseGroupVersion emptyRegistry
          [Some \<lparr>GroupVersion = ''v1'', APIResources =
             [\<lparr>Name = ''Pod'', Namespaced = True, Verbs = [''get'']\<rparr>,
              \<lparr>Name = ''pods'', Namespaced = True, Verbs = [''get'']\<rparr>]\<rparr>])
        (Some \<lparr>Group = '''', Version = ''v1'', Resource = ''Pod''\<rparr>) \<noteq> Inr False"
  by code_simp

subsection \<open>Population\<close>

lemma ignoreGroups_iff:
  "(StringInSlice ignoreGroups g = ValueNotFound) = (g \<noteq> ''metrics.k8s.io'')"
  using StringInSlice_found [of ignoreGroups g] by (auto simp: ignoreGroups_def)

lemma inner_append:
  "setMapResources_inner gv reg (xs @ ys) =
   setMapResources_inner gv (setMapResources_inner gv reg xs) ys"
  by (induction xs arbitrary: reg) (simp_all add: Let_def)

lemma inner_keeps:
  "map_of (ResourceGroupMapping reg) n = Some s \<Longrightarrow>
   map_of (ResourceGroupMapping (setMapResources_inner gv reg rs)) n = Some s"
proof (induction rs arbitrary: reg)
  case Nil
  then show ?case by simp
next
  case (Cons r rs)
  show ?case
  proof (cases "length (Verbs r) = 0 \<or> map_of (ResourceGroupMapping reg) (Name r) \<noteq> None")
    case True
    then show ?thesis using Cons by auto
  next
    case False
    let ?reg1 = "reg\<lparr>ResourceGroupMapping := ResourceGroupMapping reg @
        [(Name r, JoinGroupVersion (Group gv) (Version gv))]\<rparr>"
    let ?t = "JoinResourceTriplets (Group gv) (Version gv) (Name r)"
    let ?reg2 = "if Namespaced r
       then ?reg1\<lparr>ResourceNamesapcedScope := ResourceNamesapcedScope ?reg1 @ [?t]\<rparr>
       else ?reg1\<lparr>ResourceClusterScope := ResourceClusterScope ?reg1 @ [?t]\<rparr>"
    from Cons.prems have "map_of (ResourceGroupMapping ?reg2) n = Some s"
      by (simp add: map_add_Some_iff)
    then have "map_of (ResourceGroupMapping (setMapResources_inner gv ?reg2 rs)) n = Some s"
      by (rule Cons.IH)
    with False show ?thesis by (simp add: Let_def)
  qed
qed

lemma inner_skip:
  "map_of (ResourceGroupMapping reg) (Name r) \<noteq> None \<Longrightarrow>
   setMapResources_inner gv reg (r # ys) = setMapResources_inner gv reg ys"
  by simp

lemma inner_claims:
  assumes "map_of (ResourceGroupMapping reg) (Name r) = None" and "Verbs r \<noteq> []"
  shows "map_of (ResourceGroupMapping (setMapResources_inner gv reg (r # ys))) (Name r) =
         Some (JoinGroupVersion (Group gv) (Version gv))"
proof -
  let ?reg1 = "reg\<lparr>ResourceGroupMapping := ResourceGroupMapping reg @
      [(Name r, JoinGroupVersion (Group gv) (Version gv))]\<rparr>"
  let ?t = "JoinResourceTriplets (Group gv) (Version gv) (Name r)"
  let ?reg2 = "if Namespaced r
     then ?reg1\<lparr>ResourceNamesapcedScope := ResourceNamesapcedScope ?reg1 @ [?t]\<rparr>
     else ?reg1\<lparr>ResourceClusterScope := ResourceClusterScope ?reg1 @ [?t]\<rparr>"
  from assms(1) have "map_of (ResourceGroupMapping ?reg2) (Name r) =
      Some (JoinGroupVersion (Group gv) (Version gv))"
    by (simp add: map_add_Some_iff)
  then have "map_of (ResourceGroupMapping (setMapResources_inner gv ?reg2 ys)) (Name r) =
      Some (JoinGroupVersion (Group gv) (Version gv))"
    by (rule inner_keeps)
  with assms show ?thesis by (simp add: Let_def)
qed

lemma outer_append:
  "setMapResources parse reg (a @ b) = setMapResources parse (setMapResources parse reg a) b"
  by (induction a arbitrary: reg) (simp_all split: option.splits sum.splits)

lemma outer_keeps:
  "map_of (ResourceGroupMapping reg) n = Some s \<Longrightarrow>
   map_of (ResourceGroupMapping (setMapResources parse reg rl)) n = Some s"
proof (induction rl arbitrary: reg)
  case Nil
  then show ?case by simp
next
  case (Cons e rl)
  then show ?case
    by (auto split: option.splits sum.splits intro: inner_keeps)
qed

lemma outer_entry:
  assumes "parse (GroupVersion l) = Inr gv"
    and "StringInSlice ignoreGroups (Group gv) = ValueNotFound"
  shows "setMapResources parse reg (Some l # rest) =
         setMapResources parse (setMapResources_inner gv reg (APIResources l)) rest"
  using assms by (cases "APIResources l") simp_all

lemma outer_drop_claimed:
  assumes "map_of (ResourceGroupMapping reg) (Name r) \<noteq> None"
  shows "setMapResources parse reg (Some (l\<lparr>APIResources := xs @ r # ys\<rparr>) # post) =
         setMapResources parse reg (Some (l\<lparr>APIResources := xs @ ys\<rparr>) # post)"
proof (cases "parse (GroupVersion l)")
  case (Inl err)
  then show ?thesis by simp
next
  case (Inr gv)
  show ?thesis
  proof (cases "StringInSlice ignoreGroups (Group gv) = ValueNotFound")
    case False
    with Inr show ?thesis by simp
  next
    case True
    from assms obtain s where "map_of (ResourceGroupMapping reg) (Name r) = Some s" by auto
    then have "map_of (ResourceGroupMapping (setMapResources_inner gv reg xs)) (Name r) \<noteq> None"
      by (simp add: inner_keeps)
    then have "setMapResources_inner gv reg (xs @ r # ys) = setMapResources_inner gv reg (xs @ ys)"
      by (simp add: inner_append inner_skip del: setMapResources_inner.simps)
    with Inr True show ?thesis by (simp add: outer_entry)
  qed
qed

text \<open>
  Claim C5, amended. The first descriptor that claims a name wins. Take a snapshot
  \<open>pre @ Some l1 # mid @ Some l2 # post\<close> with a descriptor \<open>r1\<close> in the entry \<open>l1\<close> and a
  descriptor \<open>r2\<close> of the same name in the later entry \<open>l2\<close>. Let \<open>r1\<close> pass the filters
  and be the first to reach the map under that name: its entry parses, its group is not
  ignored, its verb list is not empty, and the name is not yet a key when the loop arrives at
  it (the state then is the one after the snapshot cut off before \<open>r1\<close>). Then after
  population the map gives, for the name, the group/version of \<open>l1\<close>; and \<open>r2\<close> adds
  nothing: the three structures are the ones the snapshot without \<open>r2\<close> gives. This holds
  whatever the group/version of \<open>l2\<close> is, for every parser and every starting state.
\<close>

theorem setMapResources_first_seen_wins:
  assumes "parse (GroupVersion l1) = Inr gv1"
    and "StringInSlice ignoreGroups (Group gv1) = ValueNotFound"
    and "APIResources l1 = xs1 @ r1 # ys1"
    and "Verbs r1 \<noteq> []"
    and "map_of (ResourceGroupMapping
           (setMapResources parse reg (pre @ [Some (l1\<lparr>APIResources := xs1\<rparr>)])))
           (Name r1) = None"
    and "APIResources l2 = xs2 @ r2 # ys2"
    and "Name r2 = Name r1"
  shows "map_of (ResourceGroupMapping
           (setMapResources parse reg (pre @ Some l1 # mid @ Some l2 # post))) (Name r1) =
         Some (JoinGroupVersion (Group gv1) (Version gv1))
       \<and> setMapResources parse reg (pre @ Some l1 # mid @ Some l2 # post) =
         setMapResources parse reg
           (pre @ Some l1 # mid @ Some (l2\<lparr>APIResources := xs2 @ ys2\<rparr>) # post)"
proof -
  let ?R0 = "setMapResources parse reg pre"
  let ?Rx = "setMapResources_inner gv1 ?R0 xs1"
  let ?R1 = "setMapResources parse ?R0 [Some l1]"
  let ?R2 = "setMapResources parse ?R1 mid"
  let ?s = "JoinGroupVersion (Group gv1) (Version gv1)"
  have "setMapResources parse ?R0 [Some (l1\<lparr>APIResources := xs1\<rparr>)] = ?Rx"
    using assms(1,2) by (simp add: outer_entry)
  with assms(5) have unclaimed: "map_of (ResourceGroupMapping ?Rx) (Name r1) = None"
    by (simp add: outer_append)
  have "?R1 = setMapResources_inner gv1 ?Rx (r1 # ys1)"
    using assms(1,2,3) by (simp add: outer_entry inner_append)
  with inner_claims [OF unclaimed assms(4), of gv1 ys1]
  have c1: "map_of (ResourceGroupMapping ?R1) (Name r1) = Some ?s"
    by simp
  then have c2: "map_of (ResourceGroupMapping ?R2) (Name r2) = Some ?s"
    using assms(7) by (simp add: outer_keeps)
  have l2: "l2 = l2\<lparr>APIResources := xs2 @ r2 # ys2\<rparr>"
    using assms(6) by simp
  have whole: "setMapResources parse reg (pre @ Some l1 # mid @ e # post) =
      setMapResources parse ?R2 (e # post)" for e
  proof -
    have "setMapResources parse reg (pre @ Some l1 # mid @ e # post) =
        setMapResources parse reg (pre @ ([Some l1] @ (mid @ (e # post))))"
      by simp
    also have "\<dots> = setMapResources parse ?R2 (e # post)"
      by (simp only: outer_append)
    finally show ?thesis .
  qed
  from c2 have "setMapResources parse ?R2 (Some (l2\<lparr>APIResources := xs2 @ r2 # ys2\<rparr>) # post) =
      setMapResources parse ?R2 (Some (l2\<lparr>APIResources := xs2 @ ys2\<rparr>) # post)"
    by (intro outer_drop_claimed) simp
  with l2 have same: "setMapResources parse ?R2 (Some l2 # post) =
      setMapResources parse ?R2 (Some (l2\<lparr>APIResources := xs2 @ ys2\<rparr>) # post)"
    by simp
  from c2 assms(7)
  have "map_of (ResourceGroupMapping (setMapResources parse ?R2 (Some l2 # post))) (Name r1) =
      Some ?s"
    by (simp add: outer_keeps del: setMapResources.simps)
  with same show ?thesis by (simp add: whole del: setMapResources.simps)
qed

theorem setMapResources_first_seen_wins_witness:
  "ParseGroupVersion (GroupVersion \<lparr>GroupVersion = ''v1'', APIResources =
        [\<lparr>Name = ''pods'', Namespaced = True, Verbs = [''get'']\<rparr>]\<rparr>) =
      Inr \<lparr>Group = '''', Version = ''v1''\<rparr>
   \<and> StringInSlice ignoreGroups (Group \<lparr>Group = '''', Version = ''v1''\<rparr>) = ValueNotFound
   \<and> APIResources \<lparr>GroupVersion = ''v1'', APIResources =
        [\<lparr>Name = ''pods'', Namespaced = True, Verbs = [''get'']\<rparr>]\<rparr> =
      [] @ \<lparr>Name = ''pods'', Namespaced = True, Verbs = [''get'']\<rparr> # []
   \<and> Verbs \<lparr>Name = ''pods'', Namespaced = True, Verbs = [''get'']\<rparr> \<noteq> []
   \<and> map_of (ResourceGroupMapping (setMapResources ParseGroupVersion emptyRegistry
        ([] @ [Some (\<lparr>GroupVersion = ''v1'', APIResources =
           [\<lparr>Name = ''pods'', Namespaced = True, Verbs = [''get'']\<rparr>]\<rparr>\<lparr>APIResources := []\<rparr>)])))
        (Name \<lparr>Name = ''pods'', Namespaced = True, Verbs = [''get'']\<rparr>) = None
   \<and> APIResources \<lparr>GroupVersion = ''legacy/v1beta1'', APIResources =
        [\<lparr>Name = ''pods'', Namespaced = False, Verbs = [''list'']\<rparr>,
         \<lparr>Name = ''jobs'', Namespaced = True, Verbs = [''get'']\<rparr>]\<rparr> =
      [] @ \<lparr>Name = ''pods'', Namespaced = False, Verbs = [''list'']\<rparr> #
        [\<lparr>Name = ''jobs'', Namespaced = True, Verbs = [''get'']\<rparr>]
   \<and> Name \<lparr>Name = ''pods'', Namespaced = False, Verbs = [''list'']\<rparr> =
      Name \<lparr>Name = ''pods'', Namespaced = True, Verbs = [''get'']\<rparr>
   \<and> map_of (ResourceGroupMapping (setMapResources ParseGroupVersion emptyRegistry
        [Some \<lparr>GroupVersion = ''v1'', APIResources =
           [\<lparr>Name = ''pods'', Namespaced = True, Verbs = [''get'']\<rparr>]\<rparr>,
         Some \<lparr>GroupVersion = ''legacy/v1beta1'', APIResources =
           [\<lparr>Name = ''pods'', Namespaced = False, Verbs = [''list'']\<rparr>,
            \<lparr>Name = ''jobs'', Namespaced = True, Verbs = [''get'']\<rparr>]\<rparr>])) ''pods'' = Some ''/v1''
   \<and> setMapResources ParseGroupVersion emptyRegistry
        [Some \<lparr>GroupVersion = ''v1'', APIResources =
           [\<lparr>Name = ''pods'', Namespaced = True, Verbs = [''get'']\<rparr>]\<rparr>,
         Some \<lparr>GroupVersion = ''legacy/v1beta1'', APIResources =
           [\<lparr>Name = ''pods'', Namespaced = False, Verbs = [''list'']\<rparr>,
            \<lparr>Name = ''jobs'', Namespaced = True, Verbs = [''get'']\<rparr>]\<rparr>] =
      setMapResources ParseGroupVersion emptyRegistry
        [Some \<lparr>GroupVersion = ''v1'', APIResources =
           [\<lparr>Name = ''pods'', Namespaced = True, Verbs = [''get'']\<rparr>]\<rparr>,
         Some \<lparr>GroupVersion = ''legacy/v1beta1'', APIResources =
           [\<lparr>Name = ''jobs'', Namespaced = True, Verbs = [''get'']\<rparr>]\<rparr>]"
proof -
  let ?r1 = "\<lparr>Name = ''pods'', Namespaced = True, Verbs = [''get'']\<rparr>"
  let ?r2 = "\<lparr>Name = ''pods'', Namespaced = False, Verbs = [''list'']\<rparr>"
  let ?j = "\<lparr>Name = ''jobs'', Namespaced = True, Verbs = [''get'']\<rparr>"
  let ?l1 = "\<lparr>GroupVersion = ''v1'', APIResources = [?r1]\<rparr>"
  let ?l2 = "\<lparr>GroupVersion = ''legacy/v1beta1'', APIResources = [?r2, ?j]\<rparr>"
  let ?gv = "\<lparr>Group = '''', Version = ''v1''\<rparr>"
  have h1: "ParseGroupVersion (GroupVersion ?l1) = Inr ?gv" by code_simp
  have h2: "StringInSlice ignoreGroups (Group ?gv) = ValueNotFound" by code_simp
  have h3: "APIResources ?l1 = [] @ ?r1 # []" by simp
  have h4: "Verbs ?r1 \<noteq> []" by simp
  have h5: "map_of (ResourceGroupMapping (setMapResources ParseGroupVersion emptyRegistry
        ([] @ [Some (?l1\<lparr>APIResources := []\<rparr>)]))) (Name ?r1) = None"
    by (simp add: emptyRegistry_def)
  have h6: "APIResources ?l2 = [] @ ?r2 # [?j]" by simp
  have h7: "Name ?r2 = Name ?r1" by simp
  note c = setMapResources_first_seen_wins [OF h1 h2 h3 h4 h5 h6 h7, of "[]" "[]"]
  have c1: "map_of (ResourceGroupMapping (setMapResources ParseGroupVersion emptyRegistry
      [Some ?l1, Some ?l2])) ''pods'' = Some ''/v1''"
    using c [THEN conjunct1]
    by (simp del: setMapResources.simps setMapResources_inner.simps add: JoinGroupVersion_def)
  have c2: "setMapResources ParseGroupVersion emptyRegistry [Some ?l1, Some ?l2] =
      setMapResources ParseGroupVersion emptyRegistry
        [Some ?l1, Some \<lparr>GroupVersion = ''legacy/v1beta1'', APIResources = [?j]\<rparr>]"
    using c [THEN conjunct2]
    by (simp del: setMapResources.simps setMapResources_inner.simps)
  show ?thesis
    by (intro conjI h1 h2 h3 h4 h5 h6 h7 c1 c2)
qed

text \<open>
  Claim C5 as stated fails when the first descriptor of a name is filtered out: here the
  first \<open>pods\<close> has no verbs, so the loop passes over it, the map gives the group/version
  of the second one, and the second one does add a pair and a triple.
\<close>

theorem setMapResources_first_filtered_counterexample:
  "Name \<lparr>Name = ''pods'', Namespaced = True, Verbs = []\<rparr> =
     Name \<lparr>Name = ''pods'', Namespaced = False, Verbs = [''get'']\<rparr>
   \<and> JoinGroupVersion '''' ''v1'' = ''/v1''
   \<and> setMapResources ParseGroupVersion emptyRegistry
        [Some \<lparr>GroupVersion = ''v1'', APIResources =
           [\<lparr>Name = ''pods'', Namespaced = True, Verbs = []\<rparr>]\<rparr>,
         Some \<lparr>GroupVersion = ''apps/v1'', APIResources =
           [\<lparr>Name = ''pods'', Namespaced = False, Verbs = [''get'']\<rparr>]\<rparr>] =
       \<lparr>ResourceGroupMapping = [(''pods'', ''apps/v1'')],
          ResourceClusterScope = [''apps/v1/pods''], ResourceNamesapcedScope = []\<rparr>
   \<and> map_of (ResourceGroupMapping (setMapResources ParseGroupVersion emptyRegistry
        [Some \<lparr>GroupVersion = ''v1'', APIResources =
           [\<lparr>Name = ''pods'', Namespaced = True, Verbs = []\<rparr>]\<rparr>,
         Some \<lparr>GroupVersion = ''apps/v1'', APIResources =
           [\<lparr>Name = ''pods'', Namespaced = False, Verbs = [''get'']\<rparr>]\<rparr>])) ''pods'' \<noteq>
       Some ''/v1''
   \<and> setMapResources ParseGroupVersion emptyRegistry
        [Some \<lparr>GroupVersion = ''v1'', APIResources =
           [\<lparr>Name = ''pods'', Namespaced = True, Verbs = []\<rparr>]\<rparr>,
         Some \<lparr>GroupVersion = ''apps/v1'', APIResources =
           [\<lparr>Name = ''pods'', Namespaced = False, Verbs = [''get'']\<rparr>]\<rparr>] \<noteq>
       setMapResources ParseGroupVersion emptyRegistry
        [Some \<lparr>GroupVersion = ''v1'', APIResources =
           [\<lparr>Name = ''pods'', Namespaced = True, Verbs = []\<rparr>]\<rparr>,
         Some \<lparr>GroupVersion = ''apps/v1'', APIResources = []\<rparr>]"
  by code_simp

lemma inner_origin_map:
  "(n, s) \<in> set (ResourceGroupMapping (setMapResources_inner gv reg rs)) \<Longrightarrow>
   (n, s) \<in> set (ResourceGroupMapping reg) \<or>
   (\<exists>r. r \<in> set rs \<and> Verbs r \<noteq> [] \<and> Name r = n \<and>
        s = JoinGroupVersion (Group gv) (Version gv))"
proof (induction rs arbitrary: reg)
  case Nil
  then show ?case by simp
next
  case (Cons a rs)
  from Cons.prems show ?case
    by (auto simp: Let_def split: if_splits dest!: Cons.IH)
qed

lemma inner_origin_namespaced:
  "t \<in> set (ResourceNamesapcedScope (setMapResources_inner gv reg rs)) \<Longrightarrow>
   t \<in> set (ResourceNamesapcedScope reg) \<or>
   (\<exists>r. r \<in> set rs \<and> Verbs r \<noteq> [] \<and> Namespaced r \<and>
        t = JoinResourceTriplets (Group gv) (Version gv) (Name r))"
proof (induction rs arbitrary: reg)
  case Nil
  then show ?case by simp
next
  case (Cons a rs)
  from Cons.prems show ?case
    by (auto simp: Let_def split: if_splits dest!: Cons.IH)
qed

lemma inner_origin_cluster:
  "t \<in> set (ResourceClusterScope (setMapResources_inner gv reg rs)) \<Longrightarrow>
   t \<in> set (ResourceClusterScope reg) \<or>
   (\<exists>r. r \<in> set rs \<and> Verbs r \<noteq> [] \<and> \<not> Namespaced r \<and>
        t = JoinResourceTriplets (Group gv) (Version gv) (Name r))"
proof (induction rs arbitrary: reg)
  case Nil
  then show ?case by simp
next
  case (Cons a rs)
  from Cons.prems show ?case
    by (auto simp: Let_def split: if_splits dest!: Cons.IH)
qed

text \<open>
  The outer loop, for any of the three structures (\<open>sel\<close> reads it off the state): what the
  inner loop can add, the whole population can add only from an entry that is not nil, parses
  and is outside the ignored group.
\<close>

lemma outer_origin:
  assumes step: "\<And>gv reg rs. x \<in> sel (setMapResources_inner gv reg rs) \<Longrightarrow>
      x \<in> sel reg \<or> (\<exists>r. r \<in> set rs \<and> Verbs r \<noteq> [] \<and> ok gv r)"
    and mem: "x \<in> sel (setMapResources parse reg rl)"
  shows "x \<in> sel reg \<or>
    (\<exists>l gv r. Some l \<in> set rl \<and> parse (GroupVersion l) = Inr gv \<and>
       Group gv \<noteq> ''metrics.k8s.io'' \<and> r \<in> set (APIResources l) \<and> Verbs r \<noteq> [] \<and> ok gv r)"
  using mem
proof (induction rl arbitrary: reg)
  case Nil
  then show ?case by simp
next
  case (Cons e rl)
  let ?found = "\<lambda>rl. \<exists>l gv r. Some l \<in> set rl \<and> parse (GroupVersion l) = Inr gv \<and>
       Group gv \<noteq> ''metrics.k8s.io'' \<and> r \<in> set (APIResources l) \<and> Verbs r \<noteq> [] \<and> ok gv r"
  have mono: "?found rl \<Longrightarrow> ?found (e # rl)" by auto
  show ?case
  proof (cases "\<exists>l gv. e = Some l \<and> APIResources l \<noteq> [] \<and> parse (GroupVersion l) = Inr gv \<and>
      StringInSlice ignoreGroups (Group gv) = ValueNotFound")
    case False
    then have "setMapResources parse reg (e # rl) = setMapResources parse reg rl"
      by (auto split: option.splits sum.splits)
    with Cons.prems have "x \<in> sel (setMapResources parse reg rl)" by simp
    then have "x \<in> sel reg \<or> ?found rl" by (rule Cons.IH)
    with mono show ?thesis by blast
  next
    case True
    then obtain l gv where e: "e = Some l" and p: "parse (GroupVersion l) = Inr gv"
      and g: "StringInSlice ignoreGroups (Group gv) = ValueNotFound" by blast
    let ?reg' = "setMapResources_inner gv reg (APIResources l)"
    from e p g have "setMapResources parse reg (e # rl) = setMapResources parse ?reg' rl"
      by (simp add: outer_entry)
    with Cons.prems have "x \<in> sel (setMapResources parse ?reg' rl)" by simp
    then have "x \<in> sel ?reg' \<or> ?found rl" by (rule Cons.IH)
    then show ?thesis
    proof
      assume "x \<in> sel ?reg'"
      then have "x \<in> sel reg \<or> (\<exists>r. r \<in> set (APIResources l) \<and> Verbs r \<noteq> [] \<and> ok gv r)"
        by (rule step)
      then show ?thesis
      proof
        assume "x \<in> sel reg"
        then show ?thesis ..
      next
        assume "\<exists>r. r \<in> set (APIResources l) \<and> Verbs r \<noteq> [] \<and> ok gv r"
        then obtain r where "r \<in> set (APIResources l)" "Verbs r \<noteq> []" "ok gv r" by blast
        with e p g have "?found (e # rl)"
          by (auto simp: ignoreGroups_iff)
        then show ?thesis ..
      qed
    next
      assume "?found rl"
      with mono show ?thesis by blast
    qed
  qed
qed

text \<open>
  Claim C6. Filtering at ingestion. After \<open>setMapResources\<close>, for every snapshot, parser and
  starting state, each pair of the registry map, each triple of the namespaced list and each
  triple of the cluster list was there before the call or was written for a descriptor of the
  snapshot whose entry parsed to a group other than \<open>metrics.k8s.io\<close> and whose verb list
  is not empty (with the namespaced flag set for the namespaced list, unset for the cluster
  list). A descriptor of the ignored group or without verbs therefore puts nothing into any of
  the three, whatever its flag.
\<close>

theorem setMapResources_filtered_origin:
  "((n, s) \<in> set (ResourceGroupMapping (setMapResources parse reg rl)) \<longrightarrow>
      (n, s) \<in> set (ResourceGroupMapping reg) \<or>
      (\<exists>l gv r. Some l \<in> set rl \<and> parse (GroupVersion l) = Inr gv \<and>
         Group gv \<noteq> ''metrics.k8s.io'' \<and> r \<in> set (APIResources l) \<and> Verbs r \<noteq> [] \<and>
         Name r = n \<and> s = JoinGroupVersion (Group gv) (Version gv)))
   \<and> (t \<in> set (ResourceNamesapcedScope (setMapResources parse reg rl)) \<longrightarrow>
      t \<in> set (ResourceNamesapcedScope reg) \<or>
      (\<exists>l gv r. Some l \<in> set rl \<and> parse (GroupVersion l) = Inr gv \<and>
         Group gv \<noteq> ''metrics.k8s.io'' \<and> r \<in> set (APIResources l) \<and> Verbs r \<noteq> [] \<and>
         Namespaced r \<and> t = JoinResourceTriplets (Group gv) (Version gv) (Name r)))
   \<and> (u \<in> set (ResourceClusterScope (setMapResources parse reg rl)) \<longrightarrow>
      u \<in> set (ResourceClusterScope reg) \<or>
      (\<exists>l gv r. Some l \<in> set rl \<and> parse (GroupVersion l) = Inr gv \<and>
         Group gv \<noteq> ''metrics.k8s.io'' \<and> r \<in> set (APIResources l) \<and> Verbs r \<noteq> [] \<and>
         \<not> Namespaced r \<and> u = JoinResourceTriplets (Group gv) (Version gv) (Name r)))"
proof (intro conjI impI)
  assume "(n, s) \<in> set (ResourceGroupMapping (setMapResources parse reg rl))"
  then show "(n, s) \<in> set (ResourceGroupMapping reg) \<or>
      (\<exists>l gv r. Some l \<in> set rl \<and> parse (GroupVersion l) = Inr gv \<and>
         Group gv \<noteq> ''metrics.k8s.io'' \<and> r \<in> set (APIResources l) \<and> Verbs r \<noteq> [] \<and>
         Name r = n \<and> s = JoinGroupVersion (Group gv) (Version gv))"
    by (rule outer_origin [where sel = "\<lambda>q. set (ResourceGroupMapping q)", rotated])
      (rule inner_origin_map)
next
  assume "t \<in> set (ResourceNamesapcedScope (setMapResources parse reg rl))"
  then show "t \<in> set (ResourceNamesapcedScope reg) \<or>
      (\<exists>l gv r. Some l \<in> set rl \<and> parse (GroupVersion l) = Inr gv \<and>
         Group gv \<noteq> ''metrics.k8s.io'' \<and> r \<in> set (APIResources l) \<and> Verbs r \<noteq> [] \<and>
         Namespaced r \<and> t = JoinResourceTriplets (Group gv) (Version gv) (Name r))"
    by (rule outer_origin [where sel = "\<lambda>q. set (ResourceNamesapcedScope q)", rotated])
      (rule inner_origin_namespaced)
next
  assume "u \<in> set (ResourceClusterScope (setMapResources parse reg rl))"
  then show "u \<in> set (ResourceClusterScope reg) \<or>
      (\<exists>l gv r. Some l \<in> set rl \<and> parse (GroupVersion l) = Inr gv \<and>
         Group gv \<noteq> ''metrics.k8s.io'' \<and> r \<in> set (APIResources l) \<and> Verbs r \<noteq> [] \<and>
         \<not> Namespaced r \<and> u = JoinResourceTriplets (Group gv) (Version gv) (Name r))"
    by (rule outer_origin [where sel = "\<lambda>q. set (ResourceClusterScope q)", rotated])
      (rule inner_origin_cluster)
qed

theorem setMapResources_filtered_origin_witness:
  "setMapResources ParseGroupVersion emptyRegistry
      [Some \<lparr>GroupVersion = ''v1'', APIResources =
         [\<lparr>Name = ''pods'', Namespaced = True, Verbs = [''get'']\<rparr>,
          \<lparr>Name = ''nodes'', Namespaced = False, Verbs = [''get'']\<rparr>,
          \<lparr>Name = ''bindings'', Namespaced = True, Verbs = []\<rparr>]\<rparr>,
       Some \<lparr>GroupVersion = ''metrics.k8s.io/v1beta1'', APIResources =
         [\<lparr>Name = ''podmetrics'', Namespaced = True, Verbs = [''get'']\<rparr>]\<rparr>] =
     \<lparr>ResourceGroupMapping = [(''pods'', ''/v1''), (''nodes'', ''/v1'')],
        ResourceClusterScope = [''/v1/nodes''], ResourceNamesapcedScope = [''/v1/pods'']\<rparr>
   \<and> (''pods'', ''/v1'') \<in> set (ResourceGroupMapping (setMapResources ParseGroupVersion emptyRegistry
      [Some \<lparr>GroupVersion = ''v1'', APIResources =
         [\<lparr>Name = ''pods'', Namespaced = True, Verbs = [''get'']\<rparr>,
          \<lparr>Name = ''nodes'', Namespaced = False, Verbs = [''get'']\<rparr>,
          \<lparr>Name = ''bindings'', Namespaced = True, Verbs = []\<rparr>]\<rparr>,
       Some \<lparr>GroupVersion = ''metrics.k8s.io/v1beta1'', APIResources =
         [\<lparr>Name = ''podmetrics'', Namespaced = True, Verbs = [''get'']\<rparr>]\<rparr>]))
   \<and> ''/v1/pods'' \<in> set (ResourceNamesapcedScope (setMapResources ParseGroupVersion emptyRegistry
      [Some \<lparr>GroupVersion = ''v1'', APIResources =
         [\<lparr>Name = ''pods'', Namespaced = True, Verbs = [''get'']\<rparr>,
          \<lparr>Name = ''nodes'', Namespaced = False, Verbs = [''get'']\<rparr>,
          \<lparr>Name = ''bindings'', Namespaced = True, Verbs = []\<rparr>]\<rparr>,
       Some \<lparr>GroupVersion = ''metrics.k8s.io/v1beta1'', APIResources =
         [\<lparr>Name = ''podmetrics'', Namespaced = True, Verbs = [''get'']\<rparr>]\<rparr>]))
   \<and> ''/v1/nodes'' \<in> set (ResourceClusterScope (setMapResources ParseGroupVersion emptyRegistry
      [Some \<lparr>GroupVersion = ''v1'', APIResources =
         [\<lparr>Name = ''pods'', Namespaced = True, Verbs = [''get'']\<rparr>,
          \<lparr>Name = ''nodes'', Namespaced = False, Verbs = [''get'']\<rparr>,
          \<lparr>Name = ''bindings'', Namespaced = True, Verbs = []\<rparr>]\<rparr>,
       Some \<lparr>GroupVersion = ''metrics.k8s.io/v1beta1'', APIResources =
         [\<lparr>Name = ''podmetrics'', Namespaced = True, Verbs = [''get'']\<rparr>]\<rparr>]))
   \<and> (\<exists>l gv r. Some l \<in> set
      [Some \<lparr>GroupVersion = ''v1'', APIResources =
         [\<lparr>Name = ''pods'', Namespaced = True, Verbs = [''get'']\<rparr>,
          \<lparr>Name = ''nodes'', Namespaced = False, Verbs = [''get'']\<rparr>,
          \<lparr>Name = ''bindings'', Namespaced = True, Verbs = []\<rparr>]\<rparr>,
       Some \<lparr>GroupVersion = ''metrics.k8s.io/v1beta1'', APIResources =
         [\<lparr>Name = ''podmetrics'', Namespaced = True, Verbs = [''get'']\<rparr>]\<rparr>]
       \<and> ParseGroupVersion (GroupVersion l) = Inr gv \<and> Group gv \<noteq> ''metrics.k8s.io''
       \<and> r \<in> set (APIResources l) \<and> Verbs r \<noteq> [] \<and> Name r = ''pods''
       \<and> ''/v1'' = JoinGroupVersion (Group gv) (Version gv))
   \<and> (\<exists>l gv r. Some l \<in> set
      [Some \<lparr>GroupVersion = ''v1'', APIResources =
         [\<lparr>Name = ''pods'', Namespaced = True, Verbs = [''get'']\<rparr>,
          \<lparr>Name = ''nodes'', Namespaced = False, Verbs = [''get'']\<rparr>,
          \<lparr>Name = ''bindings'', Namespaced = True, Verbs = []\<rparr>]\<rparr>,
       Some \<lparr>GroupVersion = ''metrics.k8s.io/v1beta1'', APIResources =
         [\<lparr>Name = ''podmetrics'', Namespaced = True, Verbs = [''get'']\<rparr>]\<rparr>]
       \<and> ParseGroupVersion (GroupVersion l) = Inr gv \<and> Group gv \<noteq> ''metrics.k8s.io''
       \<and> r \<in> set (APIResources l) \<and> Verbs r \<noteq> [] \<and> Namespaced r
       \<and> ''/v1/pods'' = JoinResourceTriplets (Group gv) (Version gv) (Name r))
   \<and> (\<exists>l gv r. Some l \<in> set
      [Some \<lparr>GroupVersion = ''v1'', APIResources =
         [\<lparr>Name = ''pods'', Namespaced = True, Verbs = [''get'']\<rparr>,
          \<lparr>Name = ''nodes'', Namespaced = False, Verbs = [''get'']\<rparr>,
          \<lparr>Name = ''bindings'', Namespaced = True, Verbs = []\<rparr>]\<rparr>,
       Some \<lparr>GroupVersion = ''metrics.k8s.io/v1beta1'', APIResources =
         [\<lparr>Name = ''podmetrics'', Namespaced = True, Verbs = [''get'']\<rparr>]\<rparr>]
       \<and> ParseGroupVersion (GroupVersion l) = Inr gv \<and> Group gv \<noteq> ''metrics.k8s.io''
       \<and> r \<in> set (APIResources l) \<and> Verbs r \<noteq> [] \<and> \<not> Namespaced r
       \<and> ''/v1/nodes'' = JoinResourceTriplets (Group gv) (Version gv) (Name r))"
proof -
  let ?rl = "[Some \<lparr>GroupVersion = ''v1'', APIResources =
         [\<lparr>Name = ''pods'', Namespaced = True, Verbs = [''get'']\<rparr>,
          \<lparr>Name = ''nodes'', Namespaced = False, Verbs = [''get'']\<rparr>,
          \<lparr>Name = ''bindings'', Namespaced = True, Verbs = []\<rparr>]\<rparr>,
       Some \<lparr>GroupVersion = ''metrics.k8s.io/v1beta1'', APIResources =
         [\<lparr>Name = ''podmetrics'', Namespaced = True, Verbs = [''get'']\<rparr>]\<rparr>]"
  let ?R = "setMapResources ParseGroupVersion emptyRegistry ?rl"
  have R: "?R = \<lparr>ResourceGroupMapping = [(''pods'', ''/v1''), (''nodes'', ''/v1'')],
      ResourceClusterScope = [''/v1/nodes''], ResourceNamesapcedScope = [''/v1/pods'']\<rparr>"
    by code_simp
  have h1: "(''pods'', ''/v1'') \<in> set (ResourceGroupMapping ?R)" by (simp only: R) simp
  have h2: "''/v1/pods'' \<in> set (ResourceNamesapcedScope ?R)" by (simp only: R) simp
  have h3: "''/v1/nodes'' \<in> set (ResourceClusterScope ?R)" by (simp only: R) simp
  have e1: "(''pods'', ''/v1'') \<notin> set (ResourceGroupMapping emptyRegistry)"
    by (simp add: emptyRegistry_def)
  have e2: "''/v1/pods'' \<notin> set (ResourceNamesapcedScope emptyRegistry)"
    by (simp add: emptyRegistry_def)
  have e3: "''/v1/nodes'' \<notin> set (ResourceClusterScope emptyRegistry)"
    by (simp add: emptyRegistry_def)
  note c = setMapResources_filtered_origin [of "''pods''" "''/v1''" ParseGroupVersion
      emptyRegistry ?rl "''/v1/pods''" "''/v1/nodes''"]
  from c h1 e1 have c1: "\<exists>l gv r. Some l \<in> set ?rl
       \<and> ParseGroupVersion (GroupVersion l) = Inr gv \<and> Group gv \<noteq> ''metrics.k8s.io''
       \<and> r \<in> set (APIResources l) \<and> Verbs r \<noteq> [] \<and> Name r = ''pods''
       \<and> ''/v1'' = JoinGroupVersion (Group gv) (Version gv)" by blast
  from c h2 e2 have c2: "\<exists>l gv r. Some l \<in> set ?rl
       \<and> ParseGroupVersion (GroupVersion l) = Inr gv \<and> Group gv \<noteq> ''metrics.k8s.io''
       \<and> r \<in> set (APIResources l) \<and> Verbs r \<noteq> [] \<and> Namespaced r
       \<and> ''/v1/pods'' = JoinResourceTriplets (Group gv) (Version gv) (Name r)" by blast
  from c h3 e3 have c3: "\<exists>l gv r. Some l \<in> set ?rl
       \<and> ParseGroupVersion (GroupVersion l) = Inr gv \<and> Group gv \<noteq> ''metrics.k8s.io''
       \<and> r \<in> set (APIResources l) \<and> Verbs r \<noteq> [] \<and> \<not> Namespaced r
       \<and> ''/v1/nodes'' = JoinResourceTriplets (Group gv) (Version gv) (Name r)" by blast
  show ?thesis by (intro conjI R h1 h2 h3 c1 c2 c3)
qed

subsection \<open>Expansion of a triple with wildcards\<close>

lemma updateResourceKind_empty: "updateResourceKind tbl '''' = ''''"
  by (simp add: updateResourceKind_def ToLower_def)

lemma IsKindKubernetes_empty: "IsKindKubernetes tbl reg ''''"
  by (simp add: IsKindKubernetes_def GetGroupVersionResource_def updateResourceKind_empty
      GetGroupVersionResource_rest_def Let_def split: option.splits)

text \<open>
  Claim C7. \<open>ResourceGroupToSlice\<close> first replaces each of group, version and resource that
  is \<open>*\<close> by the empty string: its result is the one it gives on the rewritten arguments.
  When the resource, so rewritten, is not a known Kubernetes kind, the result is the one joined
  triple of the rewritten parts, and the registry has no part in it beyond the test of the
  kind. The resource \<open>*\<close> itself never takes that branch: rewritten to the empty string it
  is a known kind for every registry, and the result is the list of the whole registry.
\<close>

theorem ResourceGroupToSlice_not_kubernetes:
  "ResourceGroupToSlice tbl reg grp version resource =
     ResourceGroupToSlice tbl reg (if grp = ''*'' then '''' else grp)
       (if version = ''*'' then '''' else version)
       (if resource = ''*'' then '''' else resource)
   \<and> (\<not> IsKindKubernetes tbl reg (if resource = ''*'' then '''' else resource) \<longrightarrow>
      ResourceGroupToSlice tbl reg grp version resource =
        [JoinResourceTriplets (if grp = ''*'' then '''' else grp)
           (if version = ''*'' then '''' else version)
           (if resource = ''*'' then '''' else resource)])
   \<and> ResourceGroupToSlice tbl reg grp version ''*'' =
       getResourceTriplets reg (if grp = ''*'' then '''' else grp)
         (if version = ''*'' then '''' else version) ''''"
proof (intro conjI impI)
  show "ResourceGroupToSlice tbl reg grp version resource =
     ResourceGroupToSlice tbl reg (if grp = ''*'' then '''' else grp)
       (if version = ''*'' then '''' else version)
       (if resource = ''*'' then '''' else resource)"
    by (simp add: ResourceGroupToSlice_def Let_def)
next
  assume "\<not> IsKindKubernetes tbl reg (if resource = ''*'' then '''' else resource)"
  then show "ResourceGroupToSlice tbl reg grp version resource =
        [JoinResourceTriplets (if grp = ''*'' then '''' else grp)
           (if version = ''*'' then '''' else version)
           (if resource = ''*'' then '''' else resource)]"
    by (simp add: ResourceGroupToSlice_def Let_def)
next
  show "ResourceGroupToSlice tbl reg grp version ''*'' =
       getResourceTriplets reg (if grp = ''*'' then '''' else grp)
         (if version = ''*'' then '''' else version) ''''"
    by (simp add: ResourceGroupToSlice_def Let_def IsKindKubernetes_empty
        updateResourceKind_empty)
qed

theorem ResourceGroupToSlice_not_kubernetes_witness:
  "\<not> IsKindKubernetes sampleCaseTable emptyRegistry
       (if ''widget'' = ''*'' then '''' else ''widget'')
   \<and> ResourceGroupToSlice sampleCaseTable emptyRegistry ''*'' ''v1'' ''widget'' = [''/v1/widget'']
   \<and> ResourceGroupToSlice sampleCaseTable emptyRegistry ''*'' ''v1'' ''widget'' =
       ResourceGroupToSlice sampleCaseTable emptyRegistry '''' ''v1'' ''widget''
   \<and> ResourceGroupToSlice sampleCaseTable
        \<lparr>ResourceGroupMapping = [(''pods'', ''/v1'')], ResourceClusterScope = [],
           ResourceNamesapcedScope = [''/v1/pods'']\<rparr> ''*'' ''*'' ''*'' = [''/v1/pods'']"
proof -
  let ?reg = "\<lparr>ResourceGroupMapping = [(''pods'', ''/v1'')], ResourceClusterScope = [],
           ResourceNamesapcedScope = [''/v1/pods'']\<rparr>"
  have h: "\<not> IsKindKubernetes sampleCaseTable emptyRegistry
      (if ''widget'' = ''*'' then '''' else ''widget'')"
    by code_simp
  note t = ResourceGroupToSlice_not_kubernetes [of sampleCaseTable emptyRegistry "''*''" "''v1''"
      "''widget''"]
  from t [THEN conjunct2, THEN conjunct1] h
  have c1: "ResourceGroupToSlice sampleCaseTable emptyRegistry ''*'' ''v1'' ''widget'' =
      [''/v1/widget'']"
    by (simp add: JoinResourceTriplets_def)
  from t [THEN conjunct1]
  have c2: "ResourceGroupToSlice sampleCaseTable emptyRegistry ''*'' ''v1'' ''widget'' =
       ResourceGroupToSlice sampleCaseTable emptyRegistry '''' ''v1'' ''widget''"
    by simp
  have g: "getResourceTriplets ?reg '''' '''' '''' = [''/v1/pods'']" by code_simp
  from ResourceGroupToSlice_not_kubernetes [of sampleCaseTable ?reg "''*''" "''*''",
      THEN conjunct2, THEN conjunct2] g
  have c3: "ResourceGroupToSlice sampleCaseTable ?reg ''*'' ''*'' ''*'' = [''/v1/pods'']"
    by simp
  show ?thesis by (intro conjI h c1 c2 c3)
qed

subsection \<open>Manifest classifier\<close>

text \<open>
  Claim C8. \<open>IsTypeWorkload\<close> holds exactly when the document is not nil, has the key
  \<open>apiVersion\<close>, has the key \<open>kind\<close> with a string for its value, and
  \<open>IsKindKubernetes\<close> holds for that string; a nil document gives false.
\<close>

theorem IsTypeWorkload_iff:
  "IsTypeWorkload tbl reg object =
     (\<exists>m k. object = Some m \<and> m ''apiVersion'' \<noteq> None \<and> m ''kind'' = Some (StringVal k)
        \<and> IsKindKubernetes tbl reg k)
   \<and> IsTypeWorkload tbl reg None = False"
  by (auto simp: IsTypeWorkload_def split: option.splits interface.splits)

end
